theory Spec2Isabelle
  imports Complex_Main
begin

section \<open>JavaScript values used by the editor\<close>

text \<open>
  The editor (src/App.js) is a React component tree: \<open>App\<close> owns the three documents,
  the parsed data object and the API key; \<open>Preview\<close> compiles the template; \<open>Button\<close>
  wraps the publish action. The values that flow through it are strings and the results
  of \<open>JSON.parse\<close>, so one type of JSON values stands for every JavaScript value of
  the program. The value \<open>null\<close> (\<open>JNull\<close>) is also what the storage hook returns for
  a key that was never written.
\<close>

datatype json =
    JNull
  | JBool bool
  | JNumber rat
  | JString string
  | JArray "json list"
  | JObject "(string \<times> json) list"

text \<open>JavaScript's truthiness, which decides \<open>a || b\<close>.\<close>

fun truthy :: "json \<Rightarrow> bool" where
  "truthy JNull = False"
| "truthy (JBool b) = b"
| "truthy (JNumber n) = (n \<noteq> 0)"
| "truthy (JString s) = (s \<noteq> [])"
| "truthy (JArray xs) = True"
| "truthy (JObject fs) = True"

definition js_or :: "json \<Rightarrow> json \<Rightarrow> json" where
  "js_or a b = (if truthy a then a else b)"

text \<open>
  \<open>Object.is old new\<close>, by which React decides whether a state setter or a dependency
  list changed anything. The second argument is always a value that was just created
  (the text handed over by an editor widget, the result of \<open>JSON.parse\<close>), so an object
  or an array is never the same reference as the old value; primitives compare by value.
\<close>

fun same_value :: "json \<Rightarrow> json \<Rightarrow> bool" where
  "same_value old (JArray xs) = False"
| "same_value old (JObject fs) = False"
| "same_value old new = (old = new)"

text \<open>
  A thrown value: an error object with its name, its message and its own further
  properties (an HTTP client's error carries the request configuration and the response
  there).
\<close>

datatype exn = Exn string string "(string \<times> json) list"

text \<open>
  Property access \<open>v.key\<close>: a \<open>TypeError\<close> on \<open>null\<close>, \<open>undefined\<close> (\<open>None\<close>) when the
  value has no such property.
\<close>

fun get_prop :: "json \<Rightarrow> string \<Rightarrow> exn + json option" where
  "get_prop JNull key = Inl (Exn ''TypeError'' (''Cannot read property '' @ key @ '' of null'') [])"
| "get_prop (JObject fs) key = Inr (map_of fs key)"
| "get_prop v key = Inr None"

text \<open>
  Interpolation \<open>${v}\<close> in a template literal. How a number prints is left to the
  parameter \<open>num\<close>.
\<close>

fun join :: "string \<Rightarrow> string list \<Rightarrow> string" where
  "join sep [] = []"
| "join sep [x] = x"
| "join sep (x # y # ys) = x @ sep @ join sep (y # ys)"

fun js_String :: "(rat \<Rightarrow> string) \<Rightarrow> json \<Rightarrow> string" where
  "js_String num JNull = ''null''"
| "js_String num (JBool b) = (if b then ''true'' else ''false'')"
| "js_String num (JNumber n) = num n"
| "js_String num (JString s) = s"
| "js_String num (JArray xs) = join '','' (map (\<lambda>x. if x = JNull then [] else js_String num x) xs)"
| "js_String num (JObject fs) = ''[object Object]''"

definition interpolate :: "(rat \<Rightarrow> string) \<Rightarrow> json option \<Rightarrow> string" where
  "interpolate num v = (case v of None \<Rightarrow> ''undefined'' | Some x \<Rightarrow> js_String num x)"

section \<open>The debounce scheduler\<close>

text \<open>
  Modelled from the spec: the debounce scheduler (lodash.debounce and the use-debounce
  hook are imported packages; only their callers are in the sources). Section 4.1: the
  function runs after \<open>delay\<close> of quiescence since the last call; if calls keep arriving,
  execution is forced once \<open>maxWait\<close> has elapsed since the first pending call of the
  burst; a call before execution restarts the delay window and keeps the ceiling. Time is
  a virtual clock in milliseconds. A pending burst records the time of its first call,
  the time of its last call and the arguments of its last call.
\<close>

record 'a debounce =
  delay :: nat
  maxWait :: "nat option"
  pending :: "(nat \<times> nat \<times> 'a) option"

text \<open>
  Modelled from the spec: when the timer of a pending burst is due (section 4.1): the
  delay after the last call, but no later than \<open>maxWait\<close> after the first call of the
  burst where a ceiling is configured.
\<close>

definition deadline :: "'a debounce \<Rightarrow> nat option" where
  "deadline d =
     (case pending d of
        None \<Rightarrow> None
      | Some (started, latest, args) \<Rightarrow>
          Some (case maxWait d of
                  None \<Rightarrow> latest + delay d
                | Some m \<Rightarrow> min (latest + delay d) (started + m)))"

text \<open>
  Modelled from the spec: a call at time \<open>t\<close> (section 4.1). It starts a burst when none
  is pending; otherwise it restarts the delay window and replaces the arguments, and the
  first call of the burst, from which the ceiling counts, stays.
\<close>

definition schedule :: "nat \<Rightarrow> 'a \<Rightarrow> 'a debounce \<Rightarrow> 'a debounce" where
  "schedule t args d =
     d\<lparr>pending :=
         Some (case pending d of
                 None \<Rightarrow> (t, t, args)
               | Some (started, latest, old) \<Rightarrow> (started, t, args))\<rparr>"

text \<open>
  Modelled from the spec: the timer of a debounce instance at time \<open>t\<close>. When the
  deadline has been reached the burst is over: the function runs, at the deadline, with
  the arguments of the burst's last call.
\<close>

definition expire :: "nat \<Rightarrow> 'a debounce \<Rightarrow> (nat \<times> 'a) option \<times> 'a debounce" where
  "expire t d =
     (case pending d of
        None \<Rightarrow> (None, d)
      | Some (started, latest, args) \<Rightarrow>
          (case deadline d of
             None \<Rightarrow> (None, d)
           | Some due \<Rightarrow> if due \<le> t then (Some (due, args), d\<lparr>pending := None\<rparr>) else (None, d)))"

text \<open>
  Modelled from the spec: a debounce instance driven by a list of timed calls (times in
  call order), and then left alone until its timer has fired. The result lists the
  executions in order: when the function ran, and with which arguments. A timer that is
  due when a call arrives fires before the call is taken.
\<close>

fun run_calls :: "'a debounce \<Rightarrow> (nat \<times> 'a) list \<Rightarrow> (nat \<times> 'a) list" where
  "run_calls d [] =
     (case deadline d of
        None \<Rightarrow> []
      | Some due \<Rightarrow> (case fst (expire due d) of None \<Rightarrow> [] | Some x \<Rightarrow> [x]))"
| "run_calls d ((t, args) # cs) =
     (case expire t d of
        (None, d') \<Rightarrow> run_calls (schedule t args d') cs
      | (Some x, d') \<Rightarrow> x # run_calls (schedule t args d') cs)"

section \<open>State, effects and exceptions\<close>

text \<open>
  Everything the components hold or touch is one record: the \<open>useState\<close> cells of \<open>App\<close>
  (\<open>html\<close>, \<open>css\<close>, \<open>params\<close>, \<open>paramsJson\<close>, \<open>apiKey\<close>), of \<open>Button\<close> (\<open>loading\<close>) and of
  \<open>Preview\<close> (the two debounced values and \<open>compiledHtml\<close>), the three debounce
  instances, the browser's store, the clock, and what the program has sent to the
  outside: console lines, alert boxes and HTTP requests, oldest first. \<open>changed\<close> lists
  the effect dependencies that a setter has changed since the effects last ran.
\<close>

datatype level = ConsoleWarn | ConsoleLog

datatype logged = LogStr string | LogExn exn

record request =
  url :: string
  payload :: json
  headers :: "(string \<times> string) list"

record response =
  status :: nat
  data :: json

datatype dep = Html | Css | Params

record app_state =
  html :: json
  css :: json
  params :: json
  paramsJson :: string
  apiKey :: string
  loading :: bool
  debouncedHtml :: json
  debouncedParams :: json
  compiledHtml :: json
  changed :: "dep list"
  htmlTimer :: "json debounce"
  paramsTimer :: "json debounce"
  writeTimer :: "(json \<times> json \<times> json) debounce"
  localStorage :: "string \<rightharpoonup> string"
  now :: nat
  console :: "(level \<times> logged) list"
  alerts :: "string list"
  requests :: "request list"

text \<open>
  The imported packages and modules that the code calls and the sources do not contain
  are parameters: \<open>JSON.parse\<close>, \<open>JSON.stringify(v, null, 2)\<close>, \<open>JSON.stringify(v)\<close>
  (\<open>JSON_stringify_plain\<close>, which the storage package calls),
  \<open>handlebars.compile(template)(data)\<close>, the printing of a number, and the two example
  documents (src/html-example, src/css-example).
\<close>

record libs =
  JSON_parse :: "string \<Rightarrow> exn + json"
  JSON_stringify :: "json \<Rightarrow> string"
  JSON_stringify_plain :: "json \<Rightarrow> string"
  handlebars :: "json \<Rightarrow> json \<Rightarrow> exn + string"
  Number_toString :: "rat \<Rightarrow> string"
  htmlExample :: string
  cssExample :: string

text \<open>
  A piece of JavaScript is a function from the state to its outcome and the new state.
  The outcome is a value or a thrown exception; what was done before a throw stays done.
\<close>

type_synonym 'a js = "app_state \<Rightarrow> (exn + 'a) \<times> app_state"

definition js_return :: "'a \<Rightarrow> 'a js" where
  "js_return x = (\<lambda>s. (Inr x, s))"

definition js_bind :: "'a js \<Rightarrow> ('a \<Rightarrow> 'b js) \<Rightarrow> 'b js" where
  "js_bind m f = (\<lambda>s. case m s of (Inl e, s') \<Rightarrow> (Inl e, s') | (Inr x, s') \<Rightarrow> f x s')"

definition js_try :: "'a js \<Rightarrow> (exn \<Rightarrow> 'a js) \<Rightarrow> 'a js" where
  "js_try m handler = (\<lambda>s. case m s of (Inl e, s') \<Rightarrow> handler e s' | (Inr x, s') \<Rightarrow> (Inr x, s'))"

definition js_call :: "exn + 'a \<Rightarrow> 'a js" where
  "js_call r = (\<lambda>s. (r, s))"

definition js_get :: "(app_state \<Rightarrow> 'a) \<Rightarrow> 'a js" where
  "js_get field = (\<lambda>s. (Inr (field s), s))"

definition js_modify :: "(app_state \<Rightarrow> app_state) \<Rightarrow> unit js" where
  "js_modify f = (\<lambda>s. (Inr (), f s))"

definition console_warn :: "logged \<Rightarrow> unit js" where
  "console_warn x = js_modify (\<lambda>s. s\<lparr>console := console s @ [(ConsoleWarn, x)]\<rparr>)"

definition console_log :: "logged \<Rightarrow> unit js" where
  "console_log x = js_modify (\<lambda>s. s\<lparr>console := console s @ [(ConsoleLog, x)]\<rparr>)"

definition alert :: "string \<Rightarrow> unit js" where
  "alert msg = js_modify (\<lambda>s. s\<lparr>alerts := alerts s @ [msg]\<rparr>)"

text \<open>
  The state setters. A setter of an effect dependency that is handed a value different
  from the current one marks the dependency as changed.
\<close>

definition setHtml :: "json \<Rightarrow> unit js" where
  "setHtml v = js_modify (\<lambda>s. if same_value (html s) v then s
                              else s\<lparr>html := v, changed := Html # changed s\<rparr>)"

definition setCss :: "json \<Rightarrow> unit js" where
  "setCss v = js_modify (\<lambda>s. if same_value (css s) v then s
                             else s\<lparr>css := v, changed := Css # changed s\<rparr>)"

definition setParams :: "json \<Rightarrow> unit js" where
  "setParams v = js_modify (\<lambda>s. if same_value (params s) v then s
                                else s\<lparr>params := v, changed := Params # changed s\<rparr>)"

definition setParamsJson :: "string \<Rightarrow> unit js" where
  "setParamsJson v = js_modify (\<lambda>s. s\<lparr>paramsJson := v\<rparr>)"

definition setApiKey :: "string \<Rightarrow> unit js" where
  "setApiKey v = js_modify (\<lambda>s. s\<lparr>apiKey := v\<rparr>)"

definition setLoading :: "bool \<Rightarrow> unit js" where
  "setLoading v = js_modify (\<lambda>s. s\<lparr>loading := v\<rparr>)"

definition setCompiledHtml :: "json \<Rightarrow> unit js" where
  "setCompiledHtml v = js_modify (\<lambda>s. s\<lparr>compiledHtml := v\<rparr>)"

section \<open>Persistence\<close>

text \<open>
  Modelled from the spec: the durable key-value store behind \<open>writeStorage\<close> and
  \<open>useLocalStorage\<close> (the package @rehooks/local-storage is imported; only its callers
  are in the sources). Sections 4.3 and 6: three independent string-valued keys; a key
  that was never written reads as absent. What is stored is text: the package stores a
  value whose \<open>typeof\<close> is \<open>object\<close> (an object, an array, \<open>null\<close>) as its JSON text, and
  any other value as the text a template literal gives for it, so a string is stored
  as it stands.
\<close>

fun is_object :: "json \<Rightarrow> bool" where
  "is_object JNull = True"
| "is_object (JArray xs) = True"
| "is_object (JObject fs) = True"
| "is_object v = False"

definition serialise :: "libs \<Rightarrow> json \<Rightarrow> string" where
  "serialise L v =
     (if is_object v then JSON_stringify_plain L v else js_String (Number_toString L) v)"

definition writeStorage ::
  "libs \<Rightarrow> string \<Rightarrow> json \<Rightarrow> (string \<rightharpoonup> string) \<Rightarrow> (string \<rightharpoonup> string)" where
  "writeStorage L key v store = store(key \<mapsto> serialise L v)"

text \<open>
  Modelled from the spec: the value the hook \<open>useLocalStorage(key)\<close> returns on the first
  render: \<open>null\<close> for an absent key; for a present key what \<open>JSON.parse\<close> makes of the
  stored text, and the stored text itself where it does not parse.
\<close>

definition useLocalStorage :: "libs \<Rightarrow> (string \<rightharpoonup> string) \<Rightarrow> string \<Rightarrow> json" where
  "useLocalStorage L store key =
     (case store key of
        None \<Rightarrow> JNull
      | Some text \<Rightarrow> (case JSON_parse L text of Inr v \<Rightarrow> v | Inl e \<Rightarrow> JString text))"

text \<open>
  The function that \<open>debouncedWriteStorage\<close> wraps (App.js, lines 126 to 130): three
  writes, one per key.
\<close>

fun save :: "libs \<Rightarrow> json \<times> json \<times> json \<Rightarrow> (string \<rightharpoonup> string) \<Rightarrow> (string \<rightharpoonup> string)" where
  "save L (h, c, p) store =
     writeStorage L ''params'' p (writeStorage L ''css'' c (writeStorage L ''html'' h store))"

text \<open>
  The initial documents of \<open>App\<close> (lines 136 to 144): each stored value, or the built-in
  default where \<open>||\<close> finds the stored value falsy.
\<close>

definition load :: "libs \<Rightarrow> (string \<rightharpoonup> string) \<Rightarrow> json \<times> json \<times> json" where
  "load L store =
     (let storedHtml = useLocalStorage L store ''html'';
          storedCss = useLocalStorage L store ''css'';
          storedParams = useLocalStorage L store ''params''
      in (js_or storedHtml (JString (htmlExample L)),
          js_or storedCss (JString (cssExample L)),
          js_or storedParams (JObject [(''title'', JString ''Hello, World!'')])))"

text \<open>
  The debounce instance of line 125, \<open>debounce(..., 1000, { maxWait: 5000 })\<close>, and the
  instance behind each \<open>useDebounce(value, 500)\<close> of \<open>Preview\<close> (lines 70 and 71), before
  any call: the configuration is the source's, the scheduler the one modelled above.
\<close>

definition debouncedWriteStorage :: "(json \<times> json \<times> json) debounce" where
  "debouncedWriteStorage = \<lparr>delay = 1000, maxWait = Some 5000, pending = None\<rparr>"

definition useDebounce :: "json debounce" where
  "useDebounce = \<lparr>delay = 500, maxWait = None, pending = None\<rparr>"

section \<open>Preview: compiling the template\<close>

text \<open>
  The initializer of \<open>compiledHtml\<close> (lines 72 to 81) and the effect that recompiles when
  a debounced value has changed (lines 83 to 93). Both catch whatever
  \<open>handlebars.compile(...)(...)\<close> throws, warn twice and fall back to the template text.
\<close>

definition Preview_initial :: "libs \<Rightarrow> json js" where
  "Preview_initial L =
     js_bind (js_get html) (\<lambda>h.
     js_bind (js_get params) (\<lambda>p.
     js_try
       (js_bind (js_call (handlebars L h p)) (\<lambda>compiled. js_return (JString compiled)))
       (\<lambda>e.
          js_bind (console_warn (LogStr ''Error when compiling handlebars, using raw HTML'')) (\<lambda>_.
          js_bind (console_warn (LogExn e)) (\<lambda>_.
          js_return h)))))"

definition Preview_effect :: "libs \<Rightarrow> unit js" where
  "Preview_effect L =
     js_bind (js_get debouncedHtml) (\<lambda>h.
     js_bind (js_get debouncedParams) (\<lambda>p.
     js_try
       (js_bind (js_call (handlebars L h p)) (\<lambda>compiled. setCompiledHtml (JString compiled)))
       (\<lambda>e.
          js_bind (console_warn (LogStr ''Error when compiling handlebars, using raw HTML'')) (\<lambda>_.
          js_bind (console_warn (LogExn e)) (\<lambda>_.
          setCompiledHtml h)))))"

section \<open>Publishing\<close>

definition host :: string where
  "host = ''https://ssfy.sh/chrisvxd/og-impact''"

text \<open>
  \<open>axios.post(url, data, { headers })\<close>. The client and the network behind it are the
  parameter \<open>post\<close>: the response the promise resolves with, or the error it rejects
  with (a transport error, or a response whose status is not a success). The promise is
  taken to settle. Every call is recorded in \<open>requests\<close>.
\<close>

definition axios_post ::
  "(request \<Rightarrow> exn + response) \<Rightarrow> string \<Rightarrow> json \<Rightarrow> (string \<times> string) list \<Rightarrow> response js" where
  "axios_post post u d hs =
     (\<lambda>s. let req = \<lparr>url = u, payload = d, headers = hs\<rparr>
          in (post req, s\<lparr>requests := requests s @ [req]\<rparr>))"

text \<open>\<open>publish\<close> (lines 148 to 174).\<close>

definition publish :: "libs \<Rightarrow> (request \<Rightarrow> exn + response) \<Rightarrow> unit js" where
  "publish L post =
     js_bind (js_get apiKey) (\<lambda>key.
     if key = [] then
       alert ''Please provide your API key before publishing a template.''
     else
       js_try
         (js_bind (js_get html) (\<lambda>h.
          js_bind (js_get css) (\<lambda>c.
          js_bind (axios_post post (host @ ''/publish'')
                     (JObject [(''body'', h), (''styles'', c)])
                     [(''Content-Type'', ''application/json''), (''Authorization'', key)]) (\<lambda>response.
          js_bind (js_call (get_prop (data response) ''template'')) (\<lambda>template.
          alert (''Save successful. Use template ID ''
                   @ interpolate (Number_toString L) template @ ''.''))))))
         (\<lambda>e.
            js_bind (alert ''Publish was unsuccessful. Please ensure you are providing a valid API key.'') (\<lambda>_.
            console_log (LogExn e))))"

text \<open>
  The click handler of \<open>Button\<close> (lines 55 to 59). The \<open>await\<close> is run to its end within
  the click: nothing else happens between the request and its outcome.
\<close>

definition Button_onClick :: "unit js \<Rightarrow> unit js" where
  "Button_onClick onClick =
     js_bind (setLoading True) (\<lambda>_.
     js_bind onClick (\<lambda>_.
     setLoading False))"

section \<open>The editors\<close>

text \<open>
  The \<open>onChange\<close> callbacks of the three editors (lines 230, 234 and 240 to 247) and of
  the API key field (line 208), called with the text of the widget after the keystroke.
\<close>

definition onChangeHtml :: "string \<Rightarrow> unit js" where
  "onChangeHtml val = setHtml (JString val)"

definition onChangeCss :: "string \<Rightarrow> unit js" where
  "onChangeCss val = setCss (JString val)"

definition onChangeData :: "libs \<Rightarrow> string \<Rightarrow> unit js" where
  "onChangeData L val =
     js_try
       (js_bind (js_call (JSON_parse L val)) (\<lambda>parsed.
        js_bind (setParams parsed) (\<lambda>_.
        setParamsJson val)))
       (\<lambda>e. console_warn (LogStr ''Error parsing JSON''))"

definition onChangeApiKey :: "string \<Rightarrow> unit js" where
  "onChangeApiKey val = setApiKey val"

section \<open>A session\<close>

text \<open>
  The effects that run after a render. \<open>App\<close>'s effect (lines 176 to 178) calls
  \<open>debouncedWriteStorage(html, css, params)\<close> when one of the three has changed; each
  \<open>useDebounce\<close> of \<open>Preview\<close> (lines 70 and 71) restarts its timer when its value has
  changed.
\<close>

definition after_render :: "app_state \<Rightarrow> app_state" where
  "after_render s =
     (let s1 = (if changed s = [] then s
                else s\<lparr>writeTimer := schedule (now s) (html s, css s, params s) (writeTimer s)\<rparr>);
          s2 = (if Html \<in> set (changed s)
                then s1\<lparr>htmlTimer := schedule (now s) (html s) (htmlTimer s)\<rparr> else s1);
          s3 = (if Params \<in> set (changed s)
                then s2\<lparr>paramsTimer := schedule (now s) (params s) (paramsTimer s)\<rparr> else s2)
      in s3\<lparr>changed := []\<rparr>)"

text \<open>
  The three timers at time \<open>t\<close>. The persistence timer writes the store; a preview timer
  hands its value on as the debounced value, and \<open>Preview\<close>'s effect recompiles when that
  value is a new one.
\<close>

definition writeTimer_fires :: "libs \<Rightarrow> nat \<Rightarrow> app_state \<Rightarrow> app_state" where
  "writeTimer_fires L t s =
     (case expire t (writeTimer s) of
        (None, d) \<Rightarrow> s
      | (Some (due, args), d) \<Rightarrow>
          s\<lparr>writeTimer := d, localStorage := save L args (localStorage s)\<rparr>)"

definition htmlTimer_fires :: "libs \<Rightarrow> nat \<Rightarrow> app_state \<Rightarrow> app_state" where
  "htmlTimer_fires L t s =
     (case expire t (htmlTimer s) of
        (None, d) \<Rightarrow> s
      | (Some (due, v), d) \<Rightarrow>
          if same_value (debouncedHtml s) v then s\<lparr>htmlTimer := d\<rparr>
          else snd (Preview_effect L (s\<lparr>htmlTimer := d, debouncedHtml := v\<rparr>)))"

definition paramsTimer_fires :: "libs \<Rightarrow> nat \<Rightarrow> app_state \<Rightarrow> app_state" where
  "paramsTimer_fires L t s =
     (case expire t (paramsTimer s) of
        (None, d) \<Rightarrow> s
      | (Some (due, v), d) \<Rightarrow>
          if same_value (debouncedParams s) v then s\<lparr>paramsTimer := d\<rparr>
          else snd (Preview_effect L (s\<lparr>paramsTimer := d, debouncedParams := v\<rparr>)))"

text \<open>
  Time passes: every timer that is due by the new time fires, the preview timers in the
  order of their deadlines. No timer callback starts a timer, so one round is enough.
\<close>

definition elapse :: "libs \<Rightarrow> nat \<Rightarrow> app_state \<Rightarrow> app_state" where
  "elapse L dt s =
     (let t = now s + dt;
          s1 = writeTimer_fires L t s;
          params_first =
            (case (deadline (paramsTimer s1), deadline (htmlTimer s1)) of
               (Some dp, Some dh) \<Rightarrow> dp < dh
             | _ \<Rightarrow> False);
          s2 = (if params_first then htmlTimer_fires L t (paramsTimer_fires L t s1)
                else paramsTimer_fires L t (htmlTimer_fires L t s1))
      in s2\<lparr>now := t\<rparr>)"

text \<open>
  The first render of \<open>App\<close> at time \<open>t\<close> over a given store (lines 136 to 146 and 69 to
  81), followed by the effects of the first render: \<open>Preview\<close> compiles, \<open>App\<close> calls
  \<open>debouncedWriteStorage\<close>.
\<close>

definition first_render :: "libs \<Rightarrow> (string \<rightharpoonup> string) \<Rightarrow> nat \<Rightarrow> app_state" where
  "first_render L store t =
     (case load L store of (h, c, p) \<Rightarrow>
        \<lparr>html = h, css = c, params = p, paramsJson = JSON_stringify L p, apiKey = [],
         loading = False, debouncedHtml = h, debouncedParams = p, compiledHtml = JNull,
         changed = [], htmlTimer = useDebounce, paramsTimer = useDebounce,
         writeTimer = debouncedWriteStorage, localStorage = store, now = t,
         console = [], alerts = [], requests = []\<rparr>)"

definition mount :: "libs \<Rightarrow> (string \<rightharpoonup> string) \<Rightarrow> nat \<Rightarrow> app_state" where
  "mount L store t =
     (let s0 = first_render L store t;
          s1 = (case Preview_initial L s0 of
                  (Inr compiled, s') \<Rightarrow> s'\<lparr>compiledHtml := compiled\<rparr>
                | (Inl e, s') \<Rightarrow> s');
          s2 = snd (Preview_effect L s1)
      in s2\<lparr>writeTimer := schedule t (html s2, css s2, params s2) (writeTimer s2)\<rparr>)"

text \<open>
  What can happen to a mounted editor: a keystroke in one of the four inputs, a click on
  the publish button (with the network's behaviour at that moment), or time passing. The
  button is disabled while \<open>loading\<close> is set.
\<close>

datatype event =
    ChangeHtml string
  | ChangeCss string
  | ChangeData string
  | ChangeApiKey string
  | ClickPublish "request \<Rightarrow> exn + response"
  | Elapse nat

fun step :: "libs \<Rightarrow> event \<Rightarrow> app_state \<Rightarrow> app_state" where
  "step L (ChangeHtml val) s = after_render (snd (onChangeHtml val s))"
| "step L (ChangeCss val) s = after_render (snd (onChangeCss val s))"
| "step L (ChangeData val) s = after_render (snd (onChangeData L val s))"
| "step L (ChangeApiKey val) s = after_render (snd (onChangeApiKey val s))"
| "step L (ClickPublish post) s =
     (if loading s then s else after_render (snd (Button_onClick (publish L post) s)))"
| "step L (Elapse dt) s = elapse L dt s"

fun run :: "libs \<Rightarrow> event list \<Rightarrow> app_state \<Rightarrow> app_state" where
  "run L [] s = s"
| "run L (e # es) s = run L es (step L e s)"

section \<open>Worked examples: an instance of the parameters\<close>

text \<open>
  The examples below need the parameters at concrete values. \<open>example_parse\<close> is
  \<open>JSON.parse\<close> on six texts and rejects every other text, among them the unfinished
  texts \<open>{\<close> and \<open>[\<close> that the examples use; \<open>example_handlebars\<close> renders a template
  without a marker as it stands and rejects a template with a marker, among them the
  malformed \<open>{{#if\<close> that the examples use; \<open>example_stringify\<close> is
  \<open>JSON.stringify(v, null, 2)\<close>, and \<open>example_stringify_plain\<close> is \<open>JSON.stringify(v)\<close>, on
  the built-in data object and on the empty object and array. No number is printed in the examples, and the instance prints every number like
  0, the one number that occurs in them. The two example documents stand in for
  src/html-example and src/css-example.
\<close>

fun has_marker :: "string \<Rightarrow> bool" where
  "has_marker (a # b # cs) = ((a = CHR ''{'' \<and> b = CHR ''{'') \<or> has_marker (b # cs))"
| "has_marker cs = False"

definition example_handlebars :: "json \<Rightarrow> json \<Rightarrow> exn + string" where
  "example_handlebars template d =
     (case template of
        JString text \<Rightarrow>
          if has_marker text then Inl (Exn ''Error'' ''Parse error'' []) else Inr text
      | _ \<Rightarrow> Inl (Exn ''Error'' ''You must pass a string to Handlebars.compile'' []))"

definition example_parse :: "string \<Rightarrow> exn + json" where
  "example_parse text =
     (case map_of [(''{}'', JObject []), (''[]'', JArray []), (''0'', JNumber 0),
                   (''null'', JNull), (''false'', JBool False), (''true'', JBool True)] text of
        Some v \<Rightarrow> Inr v
      | None \<Rightarrow> Inl (Exn ''SyntaxError'' ''Unexpected end of JSON input'' []))"

definition example_stringify :: "json \<Rightarrow> string" where
  "example_stringify v =
     (if v = JObject [(''title'', JString ''Hello, World!'')]
      then ''{'' @ [CHR 0x0A] @ ''  '' @ [CHR 0x22] @ ''title'' @ [CHR 0x22] @ '': ''
             @ [CHR 0x22] @ ''Hello, World!'' @ [CHR 0x22] @ [CHR 0x0A] @ ''}''
      else if v = JArray [] then ''[]''
      else ''{}'')"

definition example_stringify_plain :: "json \<Rightarrow> string" where
  "example_stringify_plain v =
     (if v = JObject [(''title'', JString ''Hello, World!'')]
      then ''{'' @ [CHR 0x22] @ ''title'' @ [CHR 0x22] @ '':''
             @ [CHR 0x22] @ ''Hello, World!'' @ [CHR 0x22] @ ''}''
      else if v = JArray [] then ''[]''
      else if v = JNull then ''null''
      else ''{}'')"

definition example_libs :: libs where
  "example_libs =
     \<lparr>JSON_parse = example_parse, JSON_stringify = example_stringify,
      JSON_stringify_plain = example_stringify_plain,
      handlebars = example_handlebars, Number_toString = (\<lambda>n. ''0''),
      htmlExample = ''<h1>Hello</h1>'', cssExample = ''h1 { color: red }''\<rparr>"

text \<open>
  Two networks. The first answers every request with status 200 and a template
  identifier. The second answers every request with status 401, and the client rejects
  with an error that carries, as the errors of axios do, the configuration of the request
  (\<open>error.config\<close>) and the response.
\<close>

definition server_accepts :: "string \<Rightarrow> request \<Rightarrow> exn + response" where
  "server_accepts tid req = Inr \<lparr>status = 200, data = JObject [(''template'', JString tid)]\<rparr>"

definition server_rejects :: "request \<Rightarrow> exn + response" where
  "server_rejects req =
     Inl (Exn ''Error'' ''Request failed with status code 401''
            [(''config'',
              JObject [(''url'', JString (url req)), (''data'', payload req),
                       (''headers'', JObject (map (\<lambda>(k, v). (k, JString v)) (headers req)))]),
             (''response'', JObject [(''status'', JNumber 401)])])"

text \<open>
  Example states: the editor mounted over an empty store, the same editor after an API
  key has been typed, and the editor mounted over a store whose template is malformed.
\<close>

definition example_state :: app_state where
  "example_state = mount example_libs Map.empty 0"

definition keyed_state :: app_state where
  "keyed_state = step example_libs (ChangeApiKey ''secret'') example_state"

definition broken_state :: app_state where
  "broken_state = mount example_libs [''html'' \<mapsto> ''{{#if''] 0"

text \<open>
  Example call lists for the persistence debounce: three calls within 900 ms, and seven
  calls 900 ms apart.
\<close>

definition short_burst :: "(nat \<times> json \<times> json \<times> json) list" where
  "short_burst =
     [(0, JString ''a'', JString [], JObject []),
      (400, JString ''ab'', JString [], JObject []),
      (900, JString ''abc'', JString [], JObject [])]"

definition long_burst :: "(nat \<times> json \<times> json \<times> json) list" where
  "long_burst =
     [(0, JString ''a'', JString [], JObject []),
      (900, JString ''ab'', JString [], JObject []),
      (1800, JString ''abc'', JString [], JObject []),
      (2700, JString ''abcd'', JString [], JObject []),
      (3600, JString ''abcde'', JString [], JObject []),
      (4500, JString ''abcdef'', JString [], JObject []),
      (5400, JString ''abcdefg'', JString [], JObject [])]"

section \<open>Notions used by the statements\<close>

text \<open>Timed calls in order, each less than \<open>D\<close> after the one before.\<close>

fun gaps_below :: "nat \<Rightarrow> nat list \<Rightarrow> bool" where
  "gaps_below D (a # b # ts) = (a \<le> b \<and> b < a + D \<and> gaps_below D (b # ts))"
| "gaps_below D ts = True"

text \<open>
  Two events that differ at most in the credential and in what depends on it: the text
  typed into the API key field, and the network's answer to a publish request.
\<close>

fun same_but_key :: "event \<Rightarrow> event \<Rightarrow> bool" where
  "same_but_key (ChangeHtml a) (ChangeHtml b) = (a = b)"
| "same_but_key (ChangeCss a) (ChangeCss b) = (a = b)"
| "same_but_key (ChangeData a) (ChangeData b) = (a = b)"
| "same_but_key (ChangeApiKey a) (ChangeApiKey b) = True"
| "same_but_key (ClickPublish p) (ClickPublish q) = True"
| "same_but_key (Elapse a) (Elapse b) = (a = b)"
| "same_but_key e e' = False"

text \<open>The part of the state that decides what reaches the store, now or later.\<close>

definition persisted_view ::
  "app_state \<Rightarrow> (json \<times> json \<times> json) \<times> dep list \<times> (json \<times> json \<times> json) debounce
     \<times> (string \<rightharpoonup> string) \<times> nat \<times> bool" where
  "persisted_view s =
     ((html s, css s, params s), changed s, writeTimer s, localStorage s, now s, loading s)"

text \<open>A store that is another store, or that store with the three keys written.\<close>

definition overwritten :: "libs \<Rightarrow> (string \<rightharpoonup> string) \<Rightarrow> (string \<rightharpoonup> string) \<Rightarrow> bool" where
  "overwritten L before after =
     (after = before \<or> (\<exists>h c p. after = save L (h, c, p) before))"

text \<open>
  The store holds the three documents as they are now. The persistence debounce is in
  step with the documents: it is configured as in the source, no effect is outstanding,
  and either nothing is pending and the store holds the documents, or a burst is pending
  whose arguments are the documents, whose last call is less than 1000 ms ago and whose
  first call is less than 5000 ms ago.
\<close>

definition stored :: "libs \<Rightarrow> app_state \<Rightarrow> bool" where
  "stored L s =
     (localStorage s ''html'' = Some (serialise L (html s))
      \<and> localStorage s ''css'' = Some (serialise L (css s))
      \<and> localStorage s ''params'' = Some (serialise L (params s)))"

definition in_step :: "libs \<Rightarrow> app_state \<Rightarrow> bool" where
  "in_step L s =
     (delay (writeTimer s) = 1000 \<and> maxWait (writeTimer s) = Some 5000 \<and> changed s = []
      \<and> (case pending (writeTimer s) of
            None \<Rightarrow> stored L s
          | Some (started, latest, args) \<Rightarrow>
              args = (html s, css s, params s) \<and> started \<le> latest \<and> latest \<le> now s
              \<and> now s < latest + 1000 \<and> now s < started + 5000))"

text \<open>
  Continuous typing in the markup editor: seven keystrokes, 900 ms apart.
\<close>

definition typing_session :: "event list" where
  "typing_session =
     [ChangeHtml ''a'', Elapse 900, ChangeHtml ''ab'', Elapse 900, ChangeHtml ''abc'', Elapse 900,
      ChangeHtml ''abcd'', Elapse 900, ChangeHtml ''abcde'', Elapse 900, ChangeHtml ''abcdef'',
      Elapse 900, ChangeHtml ''abcdefg'']"

text \<open>A console line that is one of the program's two fixed messages, or a caught exception.\<close>

fun fixed_or_exn :: "level \<times> logged \<Rightarrow> bool" where
  "fixed_or_exn (lv, LogStr m) =
     (m = ''Error when compiling handlebars, using raw HTML'' \<or> m = ''Error parsing JSON'')"
| "fixed_or_exn (lv, LogExn e) = True"

section \<open>Evaluating the examples\<close>

lemmas js_defs = js_return_def js_bind_def js_try_def js_call_def js_get_def js_modify_def
  console_warn_def console_log_def alert_def

lemmas setter_defs = setHtml_def setCss_def setParams_def setParamsJson_def setApiKey_def
  setLoading_def setCompiledHtml_def

lemmas mount_defs = mount_def first_render_def load_def useLocalStorage_def js_or_def
  Preview_initial_def Preview_effect_def schedule_def debouncedWriteStorage_def useDebounce_def
  example_libs_def example_handlebars_def example_stringify_def example_parse_def

lemma example_state_eq:
  "example_state =
     \<lparr>html = JString ''<h1>Hello</h1>'', css = JString ''h1 { color: red }'',
      params = JObject [(''title'', JString ''Hello, World!'')],
      paramsJson = example_stringify (JObject [(''title'', JString ''Hello, World!'')]),
      apiKey = [], loading = False,
      debouncedHtml = JString ''<h1>Hello</h1>'',
      debouncedParams = JObject [(''title'', JString ''Hello, World!'')],
      compiledHtml = JString ''<h1>Hello</h1>'', changed = [],
      htmlTimer = \<lparr>delay = 500, maxWait = None, pending = None\<rparr>,
      paramsTimer = \<lparr>delay = 500, maxWait = None, pending = None\<rparr>,
      writeTimer = \<lparr>delay = 1000, maxWait = Some 5000,
         pending = Some (0, 0, JString ''<h1>Hello</h1>'', JString ''h1 { color: red }'',
                         JObject [(''title'', JString ''Hello, World!'')])\<rparr>,
      localStorage = Map.empty, now = 0, console = [], alerts = [], requests = []\<rparr>"
  by (simp add: example_state_def mount_defs js_defs setter_defs Let_def)


lemma broken_state_eq:
  "broken_state =
     \<lparr>html = JString ''{{#if'', css = JString ''h1 { color: red }'',
      params = JObject [(''title'', JString ''Hello, World!'')],
      paramsJson = example_stringify (JObject [(''title'', JString ''Hello, World!'')]),
      apiKey = [], loading = False,
      debouncedHtml = JString ''{{#if'',
      debouncedParams = JObject [(''title'', JString ''Hello, World!'')],
      compiledHtml = JString ''{{#if'', changed = [],
      htmlTimer = \<lparr>delay = 500, maxWait = None, pending = None\<rparr>,
      paramsTimer = \<lparr>delay = 500, maxWait = None, pending = None\<rparr>,
      writeTimer = \<lparr>delay = 1000, maxWait = Some 5000,
         pending = Some (0, 0, JString ''{{#if'', JString ''h1 { color: red }'',
                         JObject [(''title'', JString ''Hello, World!'')])\<rparr>,
      localStorage = [''html'' \<mapsto> ''{{#if''], now = 0,
      console = [(ConsoleWarn, LogStr ''Error when compiling handlebars, using raw HTML''),
                 (ConsoleWarn, LogExn (Exn ''Error'' ''Parse error'' [])),
                 (ConsoleWarn, LogStr ''Error when compiling handlebars, using raw HTML''),
                 (ConsoleWarn, LogExn (Exn ''Error'' ''Parse error'' []))],
      alerts = [], requests = []\<rparr>"
  by (simp add: broken_state_def mount_defs js_defs setter_defs Let_def)

lemma same_value_eq: "same_value old new \<Longrightarrow> old = new"
  by (cases new) simp_all

section \<open>Publishing: claims C3, C8 and C10\<close>

text \<open>
  Claim C3. With an empty API key, \<open>publish\<close> does nothing but show the prompt that asks
  for the key: it returns normally with that one alert added, whatever the network would
  have answered, and the list of requests is as it was.
\<close>

theorem publish_without_key:
  "apiKey s = [] \<Longrightarrow>
     publish L post s =
       (Inr (), s\<lparr>alerts := alerts s @ [''Please provide your API key before publishing a template.'']\<rparr>)
     \<and> requests (snd (publish L post s)) = requests s"
  by (simp add: publish_def js_defs)

theorem publish_without_key_witness:
  "apiKey example_state = []
   \<and> alerts (snd (publish example_libs (server_accepts ''tpl-42'') example_state))
       = [''Please provide your API key before publishing a template.'']
   \<and> requests (snd (publish example_libs (server_accepts ''tpl-42'') example_state)) = []"
proof -
  have pre: "apiKey example_state = []" by (simp add: example_state_eq)
  show ?thesis
    using publish_without_key[OF pre, of example_libs "server_accepts ''tpl-42''"] pre
    by (simp add: example_state_eq)
qed



text \<open>
  Claim C10. \<open>publish\<close> never throws: for every state, every instance of the parameters
  and every answer of the network (a response or an error) it returns normally. So the
  click handler of the button runs to its last statement, and \<open>loading\<close> is false again
  after the click.
\<close>

theorem publish_never_throws:
  "fst (publish L post s) = Inr ()
   \<and> fst (Button_onClick (publish L post) s) = Inr ()
   \<and> loading (snd (Button_onClick (publish L post) s)) = False"
  by (simp add: publish_def Button_onClick_def setLoading_def axios_post_def js_defs Let_def
      split: sum.splits prod.splits)

theorem publish_never_throws_witness:
  "fst (publish example_libs server_rejects keyed_state) = Inr ()
   \<and> fst (Button_onClick (publish example_libs server_rejects) keyed_state) = Inr ()
   \<and> loading (snd (Button_onClick (publish example_libs server_rejects) keyed_state)) = False"
  using publish_never_throws[of example_libs server_rejects keyed_state] by simp

section \<open>Editing: claims C2 and C6\<close>

lemma step_ChangeHtml:
  "html (step L (ChangeHtml val) s) = JString val
   \<and> localStorage (step L (ChangeHtml val) s) = localStorage s
   \<and> compiledHtml (step L (ChangeHtml val) s) = compiledHtml s"
  by (simp add: onChangeHtml_def setHtml_def js_defs after_render_def Let_def)

lemma step_ChangeCss:
  "css (step L (ChangeCss val) s) = JString val
   \<and> localStorage (step L (ChangeCss val) s) = localStorage s
   \<and> compiledHtml (step L (ChangeCss val) s) = compiledHtml s"
  by (simp add: onChangeCss_def setCss_def js_defs after_render_def Let_def)

lemma step_ChangeData_parsed:
  "JSON_parse L val = Inr parsed \<Longrightarrow>
   paramsJson (step L (ChangeData val) s) = val \<and> params (step L (ChangeData val) s) = parsed"
  by (simp add: onChangeData_def setParams_def setParamsJson_def js_defs after_render_def Let_def
      same_value_eq)

lemma step_ChangeData_rejected:
  "JSON_parse L val = Inl e \<Longrightarrow>
   paramsJson (step L (ChangeData val) s) = paramsJson s \<and> params (step L (ChangeData val) s) = params s"
  by (simp add: onChangeData_def js_defs after_render_def Let_def)

lemma step_ChangeData_quiet:
  "localStorage (step L (ChangeData val) s) = localStorage s
   \<and> compiledHtml (step L (ChangeData val) s) = compiledHtml s"
  by (simp add: onChangeData_def setParams_def setParamsJson_def js_defs after_render_def Let_def
      split: sum.splits)

text \<open>
  Claim C2, amended. A keystroke in the markup editor or in the stylesheet editor sets
  the document held in memory to exactly the text typed. A keystroke in the data editor
  sets the text held in memory (\<open>paramsJson\<close>) to the text typed, and the data object to
  its parse, when the text parses as JSON; when it does not, the text held in memory and
  the data object stay as they were. No keystroke touches the store or the compiled
  output: those change only when a timer fires.
\<close>

theorem keystroke_updates_document:
  "html (step L (ChangeHtml val) s) = JString val
   \<and> css (step L (ChangeCss val) s) = JString val
   \<and> (\<forall>parsed. JSON_parse L val = Inr parsed \<longrightarrow>
        paramsJson (step L (ChangeData val) s) = val \<and> params (step L (ChangeData val) s) = parsed)
   \<and> (\<forall>e. JSON_parse L val = Inl e \<longrightarrow>
        paramsJson (step L (ChangeData val) s) = paramsJson s \<and> params (step L (ChangeData val) s) = params s)
   \<and> localStorage (step L (ChangeHtml val) s) = localStorage s
   \<and> compiledHtml (step L (ChangeHtml val) s) = compiledHtml s
   \<and> localStorage (step L (ChangeCss val) s) = localStorage s
   \<and> compiledHtml (step L (ChangeCss val) s) = compiledHtml s
   \<and> localStorage (step L (ChangeData val) s) = localStorage s
   \<and> compiledHtml (step L (ChangeData val) s) = compiledHtml s"
  using step_ChangeHtml[of L val s] step_ChangeCss[of L val s] step_ChangeData_quiet[of L val s]
    step_ChangeData_parsed[of L val _ s] step_ChangeData_rejected[of L val _ s]
  by blast

theorem keystroke_updates_document_witness:
  "JSON_parse example_libs ''[]'' = Inr (JArray [])
   \<and> html (step example_libs (ChangeHtml ''[]'') example_state) = JString ''[]''
   \<and> css (step example_libs (ChangeCss ''[]'') example_state) = JString ''[]''
   \<and> paramsJson (step example_libs (ChangeData ''[]'') example_state) = ''[]''
   \<and> params (step example_libs (ChangeData ''[]'') example_state) = JArray []
   \<and> JSON_parse example_libs ''['' = Inl (Exn ''SyntaxError'' ''Unexpected end of JSON input'' [])
   \<and> params (step example_libs (ChangeData ''['') example_state)
       = JObject [(''title'', JString ''Hello, World!'')]"
proof -
  have ok: "JSON_parse example_libs ''[]'' = Inr (JArray [])"
    by (simp add: example_libs_def example_parse_def)
  have no: "JSON_parse example_libs ''['' = Inl (Exn ''SyntaxError'' ''Unexpected end of JSON input'' [])"
    by (simp add: example_libs_def example_parse_def)
  have p: "params example_state = JObject [(''title'', JString ''Hello, World!'')]"
    by (simp add: example_state_eq)
  show ?thesis
    using keystroke_updates_document[of example_libs "''[]''" example_state]
      keystroke_updates_document[of example_libs "''[''" example_state] ok no p
    by (simp del: step.simps)
qed

text \<open>
  The claim as it was stated fails for the data editor. The user has typed \<open>[]\<close> and
  deletes the closing bracket: the widget now shows \<open>[\<close>, which does not parse, and the
  text held in memory is still \<open>[]\<close>.
\<close>

theorem data_keystroke_not_stored:
  "paramsJson (run example_libs [ChangeData ''[]'', ChangeData ''[''] example_state) = ''[]''
   \<and> paramsJson (run example_libs [ChangeData ''[]'', ChangeData ''[''] example_state) \<noteq> ''[''"
proof -
  have ok: "JSON_parse example_libs ''[]'' = Inr (JArray [])"
    by (simp add: example_libs_def example_parse_def)
  have no: "JSON_parse example_libs ''['' = Inl (Exn ''SyntaxError'' ''Unexpected end of JSON input'' [])"
    by (simp add: example_libs_def example_parse_def)
  have "paramsJson (run example_libs [ChangeData ''[]'', ChangeData ''[''] example_state)
      = paramsJson (step example_libs (ChangeData ''[]'') example_state)"
    using step_ChangeData_rejected[OF no] by simp
  also have "\<dots> = ''[]''" using step_ChangeData_parsed[OF ok] by simp
  finally show ?thesis by simp
qed

text \<open>
  Claim C6. When the text typed into the data editor does not parse as JSON, the
  handler returns normally and changes nothing but the console, where it adds the one
  warning \<open>Error parsing JSON\<close>: the data object stays the last successful parse, and no
  alert is shown.
\<close>

theorem data_parse_failure:
  "JSON_parse L val = Inl e \<Longrightarrow>
     onChangeData L val s =
       (Inr (), s\<lparr>console := console s @ [(ConsoleWarn, LogStr ''Error parsing JSON'')]\<rparr>)
     \<and> params (step L (ChangeData val) s) = params s
     \<and> alerts (step L (ChangeData val) s) = alerts s
     \<and> console (step L (ChangeData val) s) = console s @ [(ConsoleWarn, LogStr ''Error parsing JSON'')]"
  by (simp add: onChangeData_def js_defs after_render_def Let_def)

theorem data_parse_failure_witness:
  "JSON_parse example_libs ''['' = Inl (Exn ''SyntaxError'' ''Unexpected end of JSON input'' [])
   \<and> fst (onChangeData example_libs ''['' example_state) = Inr ()
   \<and> params (step example_libs (ChangeData ''['') example_state)
       = JObject [(''title'', JString ''Hello, World!'')]
   \<and> alerts (step example_libs (ChangeData ''['') example_state) = []
   \<and> console (step example_libs (ChangeData ''['') example_state)
       = [(ConsoleWarn, LogStr ''Error parsing JSON'')]"
proof -
  have no: "JSON_parse example_libs ''['' = Inl (Exn ''SyntaxError'' ''Unexpected end of JSON input'' [])"
    by (simp add: example_libs_def example_parse_def)
  have f: "params example_state = JObject [(''title'', JString ''Hello, World!'')]"
    "alerts example_state = []" "console example_state = []"
    by (simp_all add: example_state_eq)
  show ?thesis
    using data_parse_failure[OF no, of example_state] no f by (simp del: step.simps)
qed

section \<open>Preview: claim C1\<close>

text \<open>
  Claim C1, amended. When compiling or evaluating the template throws, the value shown
  is the template text as it stands, whatever was shown before; nothing is thrown to the
  caller, and two warnings are logged, a fixed message and the caught error. This holds
  for the effect that recompiles after a change and for the first render. The value
  shown is then empty only if the template text is.
\<close>

theorem render_failure_shows_template:
  "(handlebars L (debouncedHtml s) (debouncedParams s) = Inl e \<longrightarrow>
      Preview_effect L s =
        (Inr (), s\<lparr>console := console s @
                      [(ConsoleWarn, LogStr ''Error when compiling handlebars, using raw HTML''),
                       (ConsoleWarn, LogExn e)],
                    compiledHtml := debouncedHtml s\<rparr>))
   \<and> (handlebars L (html s) (params s) = Inl e \<longrightarrow>
      Preview_initial L s =
        (Inr (html s), s\<lparr>console := console s @
                      [(ConsoleWarn, LogStr ''Error when compiling handlebars, using raw HTML''),
                       (ConsoleWarn, LogExn e)]\<rparr>))"
  by (simp add: Preview_effect_def Preview_initial_def setter_defs js_defs)

theorem render_failure_shows_template_witness:
  "handlebars example_libs (debouncedHtml broken_state) (debouncedParams broken_state)
     = Inl (Exn ''Error'' ''Parse error'' [])
   \<and> fst (Preview_effect example_libs broken_state) = Inr ()
   \<and> compiledHtml (snd (Preview_effect example_libs broken_state)) = JString ''{{#if''
   \<and> fst (Preview_initial example_libs broken_state) = Inr (JString ''{{#if'')"
proof -
  have no: "handlebars example_libs (debouncedHtml broken_state) (debouncedParams broken_state)
     = Inl (Exn ''Error'' ''Parse error'' [])"
    "handlebars example_libs (html broken_state) (params broken_state)
     = Inl (Exn ''Error'' ''Parse error'' [])"
    by (simp_all add: broken_state_eq example_libs_def example_handlebars_def)
  have f: "debouncedHtml broken_state = JString ''{{#if''" "html broken_state = JString ''{{#if''"
    by (simp_all add: broken_state_eq)
  show ?thesis
    using render_failure_shows_template[of example_libs broken_state "Exn ''Error'' ''Parse error'' []"]
      no f by simp
qed

text \<open>
  The claim as it was stated fails. The store holds the template \<open>OK\<close>; the editor mounts
  and shows \<open>OK\<close>, a successful output. The user replaces the template by the malformed
  \<open>{{#if\<close>, and half a second later the preview shows \<open>{{#if\<close>, not the last successful
  output.
\<close>

theorem render_failure_not_last_output:
  "compiledHtml (mount example_libs [''html'' \<mapsto> ''OK''] 0) = JString ''OK''
   \<and> compiledHtml (run example_libs [ChangeHtml ''{{#if'', Elapse 500]
                      (mount example_libs [''html'' \<mapsto> ''OK''] 0)) = JString ''{{#if''"
  by code_simp

section \<open>Persistence: claim C7\<close>








section \<open>The debounce scheduler: claim C5\<close>

lemma expire_not_due:
  "pending d = Some (f, l, a) \<Longrightarrow> maxWait d = Some M \<Longrightarrow> t < l + delay d \<Longrightarrow> t < f + M \<Longrightarrow>
   expire t d = (None, d)"
  by (simp add: expire_def deadline_def)

lemma expire_ceiling:
  "pending d = Some (f, l, a) \<Longrightarrow> maxWait d = Some M \<Longrightarrow> t < l + delay d \<Longrightarrow> f + M \<le> t \<Longrightarrow>
   expire t d = (Some (f + M, a), d\<lparr>pending := None\<rparr>)"
  by (simp add: expire_def deadline_def min_def)

lemma schedule_pending:
  "pending d = Some (f, l, a) \<Longrightarrow>
   pending (schedule t x d) = Some (f, t, x) \<and> maxWait (schedule t x d) = maxWait d
   \<and> delay (schedule t x d) = delay d"
  by (simp add: schedule_def)

lemma first_call:
  "expire t debouncedWriteStorage = (None, debouncedWriteStorage)"
  "pending (schedule t x debouncedWriteStorage) = Some (t, t, x)"
  "maxWait (schedule t x debouncedWriteStorage) = Some 5000"
  "delay (schedule t x debouncedWriteStorage) = 1000"
  by (simp_all add: expire_def schedule_def debouncedWriteStorage_def)

text \<open>
  A burst that is already pending and whose further calls all come before the delay
  after its first call has run out: the timer fires once, after the last call.
\<close>

lemma run_calls_within_window:
  "pending d = Some (f, l, a) \<Longrightarrow> maxWait d = Some M \<Longrightarrow> delay d \<le> M \<Longrightarrow> f \<le> l \<Longrightarrow>
   sorted (l # map fst cs) \<Longrightarrow> fst (last ((l, a) # cs)) < f + delay d \<Longrightarrow>
   run_calls d cs =
     [(min (fst (last ((l, a) # cs)) + delay d) (f + M), snd (last ((l, a) # cs)))]"
proof (induction cs arbitrary: d l a)
  case Nil
  then show ?case by (simp add: deadline_def expire_def)
next
  case (Cons c cs)
  obtain t x where c: "c = (t, x)" by (cases c)
  have lt: "l \<le> t" using Cons.prems(5) c by simp
  have "t \<le> fst (last ((t, x) # cs))"
    using Cons.prems(5) c by (cases cs rule: rev_cases) auto
  then have tw: "t < f + delay d" using Cons.prems(6) c by simp
  have nd: "expire t d = (None, d)"
    using expire_not_due[OF Cons.prems(1,2), of t] tw Cons.prems(3,4) by simp
  let ?d = "schedule t x d"
  have p: "pending ?d = Some (f, t, x)" "maxWait ?d = Some M" "delay ?d = delay d"
    using schedule_pending[OF Cons.prems(1), of t x] Cons.prems(2) by simp_all
  have "run_calls ?d cs =
     [(min (fst (last ((t, x) # cs)) + delay ?d) (f + M), snd (last ((t, x) # cs)))]"
    apply (rule Cons.IH[OF p(1) p(2)])
    using Cons.prems c lt p(3) by simp_all
  then show ?case using nd c p(3) by simp
qed

text \<open>
  A pending burst whose calls keep coming, each before the delay after the one before has
  run out, until the ceiling has passed: the timer fires at the ceiling, with the
  arguments of the last call before it.
\<close>

lemma run_calls_ceiling:
  "pending d = Some (f, l, a) \<Longrightarrow> maxWait d = Some M \<Longrightarrow> l < f + M \<Longrightarrow>
   gaps_below (delay d) (l # map fst cs) \<Longrightarrow> f + M \<le> fst (last ((l, a) # cs)) \<Longrightarrow>
   \<exists>rest. run_calls d cs =
     (f + M, snd (last (takeWhile (\<lambda>c. fst c < f + M) ((l, a) # cs)))) # rest"
proof (induction cs arbitrary: d l a)
  case Nil
  then show ?case by simp
next
  case (Cons c cs)
  obtain t x where c: "c = (t, x)" by (cases c)
  have gap: "l \<le> t" "t < l + delay d" "gaps_below (delay d) (t # map fst cs)"
    using Cons.prems(4) c by simp_all
  show ?case
  proof (cases "f + M \<le> t")
    case True
    have "expire t d = (Some (f + M, a), d\<lparr>pending := None\<rparr>)"
      using expire_ceiling[OF Cons.prems(1,2) gap(2) True] .
    then show ?thesis using c True Cons.prems(3) by simp
  next
    case False
    then have tl: "t < f + M" by simp
    have nd: "expire t d = (None, d)"
      using expire_not_due[OF Cons.prems(1,2) gap(2) tl] .
    let ?d = "schedule t x d"
    have p: "pending ?d = Some (f, t, x)" "maxWait ?d = Some M" "delay ?d = delay d"
      using schedule_pending[OF Cons.prems(1), of t x] Cons.prems(2) by simp_all
    have "\<exists>rest. run_calls ?d cs =
        (f + M, snd (last (takeWhile (\<lambda>c. fst c < f + M) ((t, x) # cs)))) # rest"
      apply (rule Cons.IH[OF p(1) p(2) tl])
      using gap(3) p(3) Cons.prems(5) c by simp_all
    then show ?thesis using nd c tl Cons.prems(3) by simp
  qed
qed

text \<open>
  A pending burst of an instance without a ceiling, whose further calls all come before
  the delay after its first call has run out: the timer fires once, after the last call.
\<close>

lemma run_calls_within_window_plain:
  "pending d = Some (f, l, a) \<Longrightarrow> maxWait d = None \<Longrightarrow> f \<le> l \<Longrightarrow>
   sorted (l # map fst cs) \<Longrightarrow> fst (last ((l, a) # cs)) < f + delay d \<Longrightarrow>
   run_calls d cs = [(fst (last ((l, a) # cs)) + delay d, snd (last ((l, a) # cs)))]"
proof (induction cs arbitrary: d l a)
  case Nil
  then show ?case by (simp add: deadline_def expire_def)
next
  case (Cons c cs)
  obtain t x where c: "c = (t, x)" by (cases c)
  have lt: "l \<le> t" using Cons.prems(4) c by simp
  have "t \<le> fst (last ((t, x) # cs))"
    using Cons.prems(4) c by (cases cs rule: rev_cases) auto
  then have tw: "t < f + delay d" using Cons.prems(5) c by simp
  have nd: "expire t d = (None, d)"
    using Cons.prems(1,2,3) tw by (simp add: expire_def deadline_def)
  let ?d = "schedule t x d"
  have p: "pending ?d = Some (f, t, x)" "maxWait ?d = None" "delay ?d = delay d"
    using schedule_pending[OF Cons.prems(1), of t x] Cons.prems(2) by simp_all
  have "run_calls ?d cs = [(fst (last ((t, x) # cs)) + delay ?d, snd (last ((t, x) # cs)))]"
    apply (rule Cons.IH[OF p(1) p(2)])
    using Cons.prems c lt p(3) by simp_all
  then show ?case using nd c p(3) by simp
qed

lemma first_preview_call:
  "expire t useDebounce = (None, useDebounce)"
  "pending (schedule t x useDebounce) = Some (t, t, x)"
  "maxWait (schedule t x useDebounce) = None"
  "delay (schedule t x useDebounce) = 500"
  by (simp_all add: expire_def schedule_def useDebounce_def)

text \<open>
  Every call is answered: a burst that is pending and not yet due fires after its last
  call so far and no later than its ceiling, whatever calls follow.
\<close>

lemma run_calls_head_within:
  "pending d = Some (f, l, a) \<Longrightarrow> maxWait d = Some M \<Longrightarrow> 0 < delay d \<Longrightarrow> f \<le> l \<Longrightarrow>
   l < f + M \<Longrightarrow> sorted (l # map fst cs) \<Longrightarrow>
   \<exists>t' x' rest. run_calls d cs = (t', x') # rest \<and> l < t' \<and> t' \<le> f + M"
proof (induction cs arbitrary: d l a)
  case Nil
  then show ?case by (simp add: deadline_def expire_def)
next
  case (Cons c cs)
  obtain t x where c: "c = (t, x)" by (cases c)
  have lt: "l \<le> t" and so: "sorted (t # map fst cs)" using Cons.prems(6) c by simp_all
  have dl: "deadline d = Some (min (l + delay d) (f + M))"
    using Cons.prems(1,2) by (simp add: deadline_def)
  show ?case
  proof (cases "min (l + delay d) (f + M) \<le> t")
    case True
    then have "expire t d = (Some (min (l + delay d) (f + M), a), d\<lparr>pending := None\<rparr>)"
      using Cons.prems(1) dl by (simp add: expire_def)
    then show ?thesis using c Cons.prems(3,5) by simp
  next
    case False
    then have nd: "expire t d = (None, d)"
      using Cons.prems(1) dl by (simp add: expire_def)
    from False have tl: "t < f + M" by simp
    let ?d = "schedule t x d"
    have p: "pending ?d = Some (f, t, x)" "maxWait ?d = Some M" "delay ?d = delay d"
      using schedule_pending[OF Cons.prems(1), of t x] Cons.prems(2) by simp_all
    have "\<exists>t' x' rest. run_calls ?d cs = (t', x') # rest \<and> t < t' \<and> t' \<le> f + M"
      apply (rule Cons.IH[OF p(1) p(2)])
      using Cons.prems(3,4) lt tl so p(3) by simp_all
    then show ?thesis using nd c lt by auto
  qed
qed

lemma run_calls_covers:
  "maxWait d = Some M \<Longrightarrow> 0 < delay d \<Longrightarrow> 0 < M \<Longrightarrow> sorted (map fst cs) \<Longrightarrow>
   (case pending d of None \<Rightarrow> True | Some (f, l, a) \<Rightarrow> f \<le> l \<and> (\<forall>c \<in> set cs. l \<le> fst c)) \<Longrightarrow>
   (t, x) \<in> set cs \<Longrightarrow>
   \<exists>t' x'. (t', x') \<in> set (run_calls d cs) \<and> t < t' \<and> t' \<le> t + M"
proof (induction cs arbitrary: d)
  case Nil
  then show ?case by simp
next
  case (Cons c cs)
  obtain u y where c: "c = (u, y)" by (cases c)
  have so: "sorted (map fst cs)" and le: "\<forall>c' \<in> set cs. u \<le> fst c'"
    using Cons.prems(4) c by auto
  obtain r d' where ex: "expire u d = (r, d')" by (cases "expire u d")
  let ?d = "schedule u y d'"
  have d': "maxWait d' = Some M" "delay d' = delay d"
    using ex Cons.prems(1) by (auto simp: expire_def split: option.splits if_splits)
  have sd: "maxWait ?d = Some M" "delay ?d = delay d"
    using d' by (simp_all add: schedule_def)
  obtain f where pf: "pending ?d = Some (f, u, y)" and fu: "f \<le> u" and uf: "u < f + M"
  proof (cases "pending d'")
    case None
    then have "pending ?d = Some (u, u, y)" by (simp add: schedule_def)
    then show ?thesis using that Cons.prems(3) by simp
  next
    case (Some p)
    obtain f l a where p: "p = (f, l, a)" by (cases p)
    have same: "d' = d" "r = None"
      using ex Some by (auto simp: expire_def split: option.splits if_splits prod.splits)
    have "f \<le> l" "l \<le> u" using Cons.prems(5) Some p same c by auto
    moreover have "u < f + M"
      using ex Some p same Cons.prems(1)
      by (auto simp: expire_def deadline_def split: option.splits if_splits)
    moreover have "pending ?d = Some (f, u, y)" using Some p by (simp add: schedule_def)
    ultimately show ?thesis using that by simp
  qed
  have rc: "set (run_calls ?d cs) \<subseteq> set (run_calls d (c # cs))"
    using ex c by (cases r) auto
  show ?case
  proof (cases "(t, x) \<in> set cs")
    case True
    have "\<exists>t' x'. (t', x') \<in> set (run_calls ?d cs) \<and> t < t' \<and> t' \<le> t + M"
      apply (rule Cons.IH[OF sd(1) _ Cons.prems(3) so _ True])
      using sd(2) Cons.prems(2) pf fu le by auto
    then show ?thesis using rc by blast
  next
    case False
    then have tu: "t = u" using Cons.prems(6) c by simp
    have "\<exists>t' x' rest. run_calls ?d cs = (t', x') # rest \<and> u < t' \<and> t' \<le> f + M"
      apply (rule run_calls_head_within[OF pf sd(1) _ fu uf])
      using sd(2) Cons.prems(2) so le by auto
    then obtain t' x' rest where "run_calls ?d cs = (t', x') # rest" "u < t'" "t' \<le> f + M"
      by blast
    then have "(t', x') \<in> set (run_calls ?d cs) \<and> t < t' \<and> t' \<le> t + M"
      using tu fu by simp
    then show ?thesis using rc by blast
  qed
qed

lemma ceiling_kept:
  "pending d = Some (f, l, a) \<Longrightarrow> maxWait d = Some m \<Longrightarrow>
   \<exists>due. deadline (schedule t x d) = Some due \<and> due \<le> f + m"
  by (simp add: deadline_def schedule_def)

text \<open>
  Claim C5. A debounce instance of the program, idle, is called one or more times, the
  last call less than the configured delay after the first. Then the wrapped function
  runs exactly once, one delay after the last call, with the arguments of the last call.
  This holds for the persistence instance (1000 ms, ceiling 5000 ms) and for the instance
  behind each debounced value of the preview (500 ms, no ceiling).
\<close>

theorem burst_saves_once:
  "(cs \<noteq> [] \<and> sorted (map fst cs) \<and> fst (last cs) < fst (hd cs) + 1000 \<longrightarrow>
      run_calls debouncedWriteStorage cs = [(fst (last cs) + 1000, snd (last cs))])
   \<and> (vs \<noteq> [] \<and> sorted (map fst vs) \<and> fst (last vs) < fst (hd vs) + 500 \<longrightarrow>
      run_calls useDebounce vs = [(fst (last vs) + 500, snd (last vs))])"
proof (intro conjI impI)
  assume "cs \<noteq> [] \<and> sorted (map fst cs) \<and> fst (last cs) < fst (hd cs) + 1000"
  then have ne: "cs \<noteq> []" and so: "sorted (map fst cs)"
    and w: "fst (last cs) < fst (hd cs) + 1000" by simp_all
  obtain t x rest where cs: "cs = (t, x) # rest" using ne by (cases cs) auto
  let ?d = "schedule t x debouncedWriteStorage"
  have "run_calls ?d rest =
     [(min (fst (last ((t, x) # rest)) + delay ?d) (t + 5000), snd (last ((t, x) # rest)))]"
    apply (rule run_calls_within_window[OF first_call(2) first_call(3)])
    using so w cs first_call(4)[of t x] by simp_all
  moreover have "fst (last ((t, x) # rest)) + 1000 \<le> t + 5000" using w cs by simp
  ultimately show "run_calls debouncedWriteStorage cs = [(fst (last cs) + 1000, snd (last cs))]"
    using first_call(1)[of t] first_call(4)[of t x] cs by (simp add: min_def)
next
  assume "vs \<noteq> [] \<and> sorted (map fst vs) \<and> fst (last vs) < fst (hd vs) + 500"
  then have ne: "vs \<noteq> []" and so: "sorted (map fst vs)"
    and w: "fst (last vs) < fst (hd vs) + 500" by simp_all
  obtain t x rest where vs: "vs = (t, x) # rest" using ne by (cases vs) auto
  let ?d = "schedule t x useDebounce"
  have "run_calls ?d rest =
     [(fst (last ((t, x) # rest)) + delay ?d, snd (last ((t, x) # rest)))]"
    apply (rule run_calls_within_window_plain[OF first_preview_call(2) first_preview_call(3)])
    using so w vs first_preview_call(4)[of t x] by simp_all
  then show "run_calls useDebounce vs = [(fst (last vs) + 500, snd (last vs))]"
    using first_preview_call(1)[of t] first_preview_call(4)[of t x] vs by simp
qed

theorem burst_saves_once_witness:
  "short_burst \<noteq> [] \<and> sorted (map fst short_burst)
   \<and> fst (last short_burst) < fst (hd short_burst) + 1000
   \<and> run_calls debouncedWriteStorage short_burst = [(1900, JString ''abc'', JString [], JObject [])]
   \<and> run_calls useDebounce [(0, JString ''a''), (300, JString ''ab'')] = [(800, JString ''ab'')]"
proof -
  have pre: "short_burst \<noteq> [] \<and> sorted (map fst short_burst)
    \<and> fst (last short_burst) < fst (hd short_burst) + 1000"
    by (simp add: short_burst_def)
  have l: "fst (last short_burst) = 900" "snd (last short_burst) = (JString ''abc'', JString [], JObject [])"
    by (simp_all add: short_burst_def)
  show ?thesis
    using burst_saves_once[of short_burst "[(0, JString ''a''), (300, JString ''ab'')]"] pre l
    by simp
qed

section \<open>The credential: claim C9\<close>

subsection \<open>What reaches the store does not depend on the credential\<close>

lemma view_after_render:
  "persisted_view s = persisted_view s' \<Longrightarrow>
   persisted_view (after_render s) = persisted_view (after_render s')"
  by (simp add: persisted_view_def after_render_def Let_def)

lemma view_Preview_effect: "persisted_view (snd (Preview_effect L s)) = persisted_view s"
  by (simp add: persisted_view_def Preview_effect_def setter_defs js_defs split: sum.splits)

lemma view_htmlTimer: "persisted_view (htmlTimer_fires L t s) = persisted_view s"
  by (simp add: htmlTimer_fires_def view_Preview_effect split: prod.splits option.splits)
    (simp add: persisted_view_def)

lemma view_paramsTimer: "persisted_view (paramsTimer_fires L t s) = persisted_view s"
  by (simp add: paramsTimer_fires_def view_Preview_effect split: prod.splits option.splits)
    (simp add: persisted_view_def)

lemma view_preview_timers:
  "persisted_view (if c then htmlTimer_fires L t (paramsTimer_fires L t w)
                   else paramsTimer_fires L t (htmlTimer_fires L t w)) = persisted_view w"
  by (simp add: view_htmlTimer view_paramsTimer)

lemma view_writeTimer:
  "persisted_view s = persisted_view s' \<Longrightarrow>
   persisted_view (writeTimer_fires L t s) = persisted_view (writeTimer_fires L t s')"
  by (simp add: persisted_view_def writeTimer_fires_def split: prod.splits option.splits)

lemma view_set_now:
  "persisted_view s = persisted_view s' \<Longrightarrow>
   persisted_view (s\<lparr>now := t\<rparr>) = persisted_view (s'\<lparr>now := t\<rparr>)"
  by (simp add: persisted_view_def)

lemma view_set_loading:
  "persisted_view s = persisted_view s' \<Longrightarrow>
   persisted_view (s\<lparr>loading := b\<rparr>) = persisted_view (s'\<lparr>loading := b\<rparr>)"
  by (simp add: persisted_view_def)

lemma view_set_apiKey: "persisted_view (s\<lparr>apiKey := k\<rparr>) = persisted_view s"
  by (simp add: persisted_view_def)

lemma view_elapse:
  assumes v: "persisted_view s = persisted_view s'"
  shows "persisted_view (elapse L dt s) = persisted_view (elapse L dt s')"
proof -
  have n: "now s' = now s" using v by (simp add: persisted_view_def)
  have w: "persisted_view (writeTimer_fires L (now s + dt) s)
      = persisted_view (writeTimer_fires L (now s + dt) s')"
    using v by (rule view_writeTimer)
  show ?thesis
    unfolding elapse_def Let_def n
    by (rule view_set_now) (simp only: view_preview_timers w)
qed

lemma view_publish:
  "persisted_view (snd (Button_onClick (publish L post) s)) = persisted_view (s\<lparr>loading := False\<rparr>)"
  by (simp add: persisted_view_def Button_onClick_def publish_def axios_post_def setter_defs
      js_defs Let_def split: sum.splits)

lemma view_handlers:
  "persisted_view s = persisted_view s' \<Longrightarrow>
     persisted_view (snd (onChangeHtml v s)) = persisted_view (snd (onChangeHtml v s'))
   \<and> persisted_view (snd (onChangeCss v s)) = persisted_view (snd (onChangeCss v s'))
   \<and> persisted_view (snd (onChangeData L v s)) = persisted_view (snd (onChangeData L v s'))
   \<and> persisted_view (snd (onChangeApiKey k s)) = persisted_view (snd (onChangeApiKey k' s'))"
  by (simp add: persisted_view_def onChangeHtml_def onChangeCss_def onChangeData_def
      onChangeApiKey_def setter_defs js_defs split: sum.splits)

lemma view_click:
  assumes v: "persisted_view s = persisted_view s'"
  shows "persisted_view (step L (ClickPublish p) s) = persisted_view (step L (ClickPublish q) s')"
proof -
  have l: "loading s' = loading s" using v by (simp add: persisted_view_def)
  have "persisted_view (snd (Button_onClick (publish L p) s))
      = persisted_view (snd (Button_onClick (publish L q) s'))"
    using view_set_loading[OF v, of False] by (simp only: view_publish)
  then have r: "persisted_view (after_render (snd (Button_onClick (publish L p) s)))
      = persisted_view (after_render (snd (Button_onClick (publish L q) s')))"
    by (rule view_after_render)
  show ?thesis
  proof (cases "loading s")
    case True
    then show ?thesis using l v by (simp only: step.simps if_True)
  next
    case False
    then show ?thesis using l r by (simp only: step.simps if_False)
  qed
qed

lemma view_step:
  assumes e: "same_but_key e e'" and v: "persisted_view s = persisted_view s'"
  shows "persisted_view (step L e s) = persisted_view (step L e' s')"
proof (cases e)
  case (ChangeHtml a)
  then have e': "e' = ChangeHtml a" using e by (cases e') simp_all
  show ?thesis unfolding ChangeHtml e' step.simps
    by (rule view_after_render) (rule view_handlers[OF v, THEN conjunct1])
next
  case (ChangeCss a)
  then have e': "e' = ChangeCss a" using e by (cases e') simp_all
  show ?thesis unfolding ChangeCss e' step.simps
    by (rule view_after_render) (rule view_handlers[OF v, THEN conjunct2, THEN conjunct1])
next
  case (ChangeData a)
  then have e': "e' = ChangeData a" using e by (cases e') simp_all
  show ?thesis unfolding ChangeData e' step.simps
    by (rule view_after_render)
      (rule view_handlers[OF v, THEN conjunct2, THEN conjunct2, THEN conjunct1])
next
  case (ChangeApiKey a)
  then obtain b where e': "e' = ChangeApiKey b" using e by (cases e') simp_all
  show ?thesis unfolding ChangeApiKey e' step.simps
    by (rule view_after_render)
      (rule view_handlers[OF v, THEN conjunct2, THEN conjunct2, THEN conjunct2])
next
  case (ClickPublish p)
  then obtain q where e': "e' = ClickPublish q" using e by (cases e') simp_all
  show ?thesis unfolding ClickPublish e' by (rule view_click[OF v])
next
  case (Elapse a)
  then have e': "e' = Elapse a" using e by (cases e') simp_all
  show ?thesis unfolding Elapse e' step.simps by (rule view_elapse[OF v])
qed

lemma view_run:
  "list_all2 same_but_key es es' \<Longrightarrow> persisted_view s = persisted_view s' \<Longrightarrow>
   persisted_view (run L es s) = persisted_view (run L es' s')"
proof (induction es es' arbitrary: s s' rule: list_all2_induct)
  case Nil
  then show ?case by simp
next
  case (Cons e es e' es')
  have "persisted_view (step L e s) = persisted_view (step L e' s')"
    using Cons.hyps(1) Cons.prems by (rule view_step)
  then have "persisted_view (run L es (step L e s)) = persisted_view (run L es' (step L e' s'))"
    by (rule Cons.IH)
  then show ?case by (simp only: run.simps)
qed

subsection \<open>Only the three keys are written\<close>

lemma save_save: "save L a (save L b store) = save L a store"
  by (cases a; cases b) (auto simp: writeStorage_def fun_eq_iff)

lemma overwritten_refl: "overwritten L a a"
  by (simp add: overwritten_def)

lemma overwritten_trans: "overwritten L a b \<Longrightarrow> overwritten L b c \<Longrightarrow> overwritten L a c"
  unfolding overwritten_def by (metis save_save)

lemma store_after_render: "localStorage (after_render s) = localStorage s"
  by (simp add: after_render_def Let_def)

lemma store_Preview_effect: "localStorage (snd (Preview_effect L s)) = localStorage s"
  by (simp add: Preview_effect_def setter_defs js_defs split: sum.splits)

lemma store_preview_timers:
  "localStorage (htmlTimer_fires L t s) = localStorage s"
  "localStorage (paramsTimer_fires L t s) = localStorage s"
  by (simp_all add: htmlTimer_fires_def paramsTimer_fires_def store_Preview_effect
      split: prod.splits option.splits)

lemma store_writeTimer: "overwritten L (localStorage s) (localStorage (writeTimer_fires L t s))"
  by (cases "expire t (writeTimer s)")
    (auto simp: writeTimer_fires_def overwritten_def split: option.splits)

lemma store_elapse: "overwritten L (localStorage s) (localStorage (elapse L dt s))"
  by (simp add: elapse_def Let_def store_preview_timers store_writeTimer)

lemma store_handlers:
  "localStorage (snd (onChangeHtml v s)) = localStorage s"
  "localStorage (snd (onChangeCss v s)) = localStorage s"
  "localStorage (snd (onChangeData L v s)) = localStorage s"
  "localStorage (snd (onChangeApiKey v s)) = localStorage s"
  "localStorage (snd (Button_onClick (publish L post) s)) = localStorage s"
  by (simp_all add: onChangeHtml_def onChangeCss_def onChangeData_def onChangeApiKey_def
      Button_onClick_def publish_def axios_post_def setter_defs js_defs Let_def split: sum.splits)

lemma store_step: "overwritten L (localStorage s) (localStorage (step L e s))"
  by (cases e) (simp_all add: store_after_render store_handlers store_elapse overwritten_refl)

lemma store_run: "overwritten L (localStorage s) (localStorage (run L es s))"
proof (induction es arbitrary: s)
  case Nil
  show ?case by (simp add: overwritten_refl)
next
  case (Cons e es)
  have "overwritten L (localStorage s) (localStorage (step L e s))" by (rule store_step)
  moreover have "overwritten L (localStorage (step L e s)) (localStorage (run L es (step L e s)))"
    by (rule Cons.IH)
  ultimately show ?case using overwritten_trans by simp
qed

subsection \<open>What is logged\<close>

lemma log_after_render: "console (after_render s) = console s"
  by (simp add: after_render_def Let_def)

lemma log_Preview_effect:
  "list_all fixed_or_exn (console s) \<Longrightarrow> list_all fixed_or_exn (console (snd (Preview_effect L s)))"
  by (simp add: Preview_effect_def setter_defs js_defs split: sum.splits)

lemma log_preview_timers:
  "list_all fixed_or_exn (console s) \<Longrightarrow> list_all fixed_or_exn (console (htmlTimer_fires L t s))"
  "list_all fixed_or_exn (console s) \<Longrightarrow> list_all fixed_or_exn (console (paramsTimer_fires L t s))"
  by (simp_all add: htmlTimer_fires_def paramsTimer_fires_def log_Preview_effect
      split: prod.splits option.splits)

lemma log_writeTimer: "console (writeTimer_fires L t s) = console s"
  by (simp add: writeTimer_fires_def split: prod.splits option.splits)

lemma log_elapse:
  "list_all fixed_or_exn (console s) \<Longrightarrow> list_all fixed_or_exn (console (elapse L dt s))"
  by (simp add: elapse_def Let_def log_preview_timers log_writeTimer)

lemma log_handlers:
  "console (snd (onChangeHtml v s)) = console s"
  "console (snd (onChangeCss v s)) = console s"
  "list_all fixed_or_exn (console s) \<Longrightarrow> list_all fixed_or_exn (console (snd (onChangeData L v s)))"
  "console (snd (onChangeApiKey v s)) = console s"
  "list_all fixed_or_exn (console s) \<Longrightarrow>
   list_all fixed_or_exn (console (snd (Button_onClick (publish L post) s)))"
  by (simp_all add: onChangeHtml_def onChangeCss_def onChangeData_def onChangeApiKey_def
      Button_onClick_def publish_def axios_post_def setter_defs js_defs Let_def split: sum.splits)

lemma log_step:
  "list_all fixed_or_exn (console s) \<Longrightarrow> list_all fixed_or_exn (console (step L e s))"
  by (cases e) (simp_all add: log_after_render log_handlers log_elapse)

lemma log_run:
  "list_all fixed_or_exn (console s) \<Longrightarrow> list_all fixed_or_exn (console (run L es s))"
  by (induction es arbitrary: s) (simp_all add: log_step)

text \<open>
  Claim C9, amended. Take two sessions that start from states differing only in the API
  key and that go through the same events, except that the texts typed into the API key
  field and the network's answers to the publish requests may differ. They end with the
  same store. In every session the store at the end is the store at the start, or that
  store with the three keys \<open>html\<close>, \<open>css\<close> and \<open>params\<close> overwritten. The program never
  hands the API key itself to the console: every line it logs is one of its two fixed
  messages or an exception it has caught. (The exception logged after a failed publish
  is the raw error of the HTTP client for the request that carried the key; what that
  error contains is up to the client.)
\<close>

theorem credential_not_persisted:
  "list_all2 same_but_key es es' \<Longrightarrow>
     localStorage (run L es (s\<lparr>apiKey := k\<rparr>)) = localStorage (run L es' (s\<lparr>apiKey := k'\<rparr>))
     \<and> overwritten L (localStorage s) (localStorage (run L es (s\<lparr>apiKey := k\<rparr>)))
     \<and> (list_all fixed_or_exn (console s) \<longrightarrow>
          list_all fixed_or_exn (console (run L es (s\<lparr>apiKey := k\<rparr>))))"
proof (intro conjI impI)
  assume es: "list_all2 same_but_key es es'"
  have "persisted_view (s\<lparr>apiKey := k\<rparr>) = persisted_view (s\<lparr>apiKey := k'\<rparr>)"
    by (simp only: view_set_apiKey)
  with es have "persisted_view (run L es (s\<lparr>apiKey := k\<rparr>)) = persisted_view (run L es' (s\<lparr>apiKey := k'\<rparr>))"
    by (rule view_run)
  then show "localStorage (run L es (s\<lparr>apiKey := k\<rparr>)) = localStorage (run L es' (s\<lparr>apiKey := k'\<rparr>))"
    by (simp add: persisted_view_def)
next
  show "overwritten L (localStorage s) (localStorage (run L es (s\<lparr>apiKey := k\<rparr>)))"
    using store_run[where s = "s\<lparr>apiKey := k\<rparr>" and L = L and es = es] by simp
next
  assume "list_all fixed_or_exn (console s)"
  then show "list_all fixed_or_exn (console (run L es (s\<lparr>apiKey := k\<rparr>)))"
    using log_run[of "s\<lparr>apiKey := k\<rparr>" L es] by simp
qed

theorem credential_not_persisted_witness:
  "list_all2 same_but_key
     [ChangeHtml ''<p>x</p>'', ClickPublish server_rejects, Elapse 1000]
     [ChangeHtml ''<p>x</p>'', ClickPublish (server_accepts ''tpl-42''), Elapse 1000]
   \<and> localStorage (run example_libs [ChangeHtml ''<p>x</p>'', ClickPublish server_rejects, Elapse 1000]
                      (example_state\<lparr>apiKey := ''secret''\<rparr>))
     = localStorage (run example_libs
                      [ChangeHtml ''<p>x</p>'', ClickPublish (server_accepts ''tpl-42''), Elapse 1000]
                      (example_state\<lparr>apiKey := ''another''\<rparr>))
   \<and> list_all fixed_or_exn (console example_state)
   \<and> list_all fixed_or_exn
        (console (run example_libs [ChangeHtml ''<p>x</p>'', ClickPublish server_rejects, Elapse 1000]
                    (example_state\<lparr>apiKey := ''secret''\<rparr>)))"
proof -
  have pre: "list_all2 same_but_key
     [ChangeHtml ''<p>x</p>'', ClickPublish server_rejects, Elapse 1000]
     [ChangeHtml ''<p>x</p>'', ClickPublish (server_accepts ''tpl-42''), Elapse 1000]"
    by simp
  have c: "list_all fixed_or_exn (console example_state)"
    by (simp add: example_state_eq)
  show ?thesis
    using credential_not_persisted[OF pre, where L = example_libs and s = example_state
          and k = "''secret''" and k' = "''another''"]
      pre c
    by (simp del: run.simps step.simps)
qed

text \<open>
  The claim as it was stated fails in its last part. The user types the key \<open>secret\<close>
  and clicks the button; the server answers 401; \<open>publish\<close> hands the error it caught to
  \<open>console.log\<close>, and the error carries the request with its Authorization header.
\<close>

theorem credential_in_logged_error:
  "console (run example_libs [ChangeApiKey ''secret'', ClickPublish server_rejects] example_state) =
     [(ConsoleLog,
       LogExn (Exn ''Error'' ''Request failed with status code 401''
         [(''config'',
           JObject
            [(''url'', JString ''https://ssfy.sh/chrisvxd/og-impact/publish''),
             (''data'', JObject [(''body'', JString ''<h1>Hello</h1>''),
                                 (''styles'', JString ''h1 { color: red }'')]),
             (''headers'', JObject [(''Content-Type'', JString ''application/json''),
                                    (''Authorization'', JString ''secret'')])]),
          (''response'', JObject [(''status'', JNumber 401)])]))]"
  by code_simp

section \<open>The store during a session: claim C4\<close>

lemma run_append: "run L (xs @ ys) s = run L ys (run L xs s)"
  by (induction xs arbitrary: s) simp_all

lemma in_step_view: "persisted_view s = persisted_view s' \<Longrightarrow> in_step L s = in_step L s'"
  by (auto simp: persisted_view_def in_step_def stored_def split: option.splits)

lemma in_step_mount: "in_step L (mount L store t)"
  by (simp add: in_step_def mount_def first_render_def Preview_initial_def Preview_effect_def
      setter_defs js_defs schedule_def debouncedWriteStorage_def Let_def
      split: prod.splits sum.splits)

lemma in_step_after_handler:
  assumes "in_step L s" and "now s' = now s" and "localStorage s' = localStorage s"
    and "writeTimer s' = writeTimer s"
    and "changed s' = [] \<and> html s' = html s \<and> css s' = css s \<and> params s' = params s
         \<or> changed s' \<noteq> []"
  shows "in_step L (after_render s')"
  using assms
  by (auto simp: in_step_def stored_def after_render_def schedule_def Let_def
      split: option.splits)


lemma handler_effects:
  assumes "changed s = []"
  shows "let s' = snd (onChangeHtml v s) in
       now s' = now s \<and> localStorage s' = localStorage s \<and> writeTimer s' = writeTimer s
       \<and> (changed s' = [] \<and> html s' = html s \<and> css s' = css s \<and> params s' = params s
            \<or> changed s' \<noteq> [])"
    and "let s' = snd (onChangeCss v s) in
       now s' = now s \<and> localStorage s' = localStorage s \<and> writeTimer s' = writeTimer s
       \<and> (changed s' = [] \<and> html s' = html s \<and> css s' = css s \<and> params s' = params s
            \<or> changed s' \<noteq> [])"
    and "let s' = snd (onChangeData L v s) in
       now s' = now s \<and> localStorage s' = localStorage s \<and> writeTimer s' = writeTimer s
       \<and> (changed s' = [] \<and> html s' = html s \<and> css s' = css s \<and> params s' = params s
            \<or> changed s' \<noteq> [])"
    and "let s' = snd (onChangeApiKey v s) in
       now s' = now s \<and> localStorage s' = localStorage s \<and> writeTimer s' = writeTimer s
       \<and> (changed s' = [] \<and> html s' = html s \<and> css s' = css s \<and> params s' = params s
            \<or> changed s' \<noteq> [])"
    and "let s' = snd (Button_onClick (publish L post) s) in
       now s' = now s \<and> localStorage s' = localStorage s \<and> writeTimer s' = writeTimer s
       \<and> (changed s' = [] \<and> html s' = html s \<and> css s' = css s \<and> params s' = params s
            \<or> changed s' \<noteq> [])"
  using assms
  by (auto simp: onChangeHtml_def onChangeCss_def onChangeData_def onChangeApiKey_def
      Button_onClick_def publish_def axios_post_def setter_defs js_defs Let_def
      split: sum.splits if_splits)

lemma view_elapse_write:
  "persisted_view (elapse L dt s)
     = persisted_view ((writeTimer_fires L (now s + dt) s)\<lparr>now := now s + dt\<rparr>)"
  unfolding elapse_def Let_def
  by (rule view_set_now) (simp only: view_preview_timers)

lemma in_step_write:
  "in_step L s \<Longrightarrow> in_step L ((writeTimer_fires L (now s + dt) s)\<lparr>now := now s + dt\<rparr>)"
  by (auto simp: in_step_def stored_def writeTimer_fires_def expire_def deadline_def
      writeStorage_def split: option.splits)

lemma in_step_step: "in_step L s \<Longrightarrow> in_step L (step L e s)"
proof -
  assume i: "in_step L s"
  then have c: "changed s = []" by (simp add: in_step_def)
  show ?thesis
  proof (cases e)
    case (ChangeHtml v)
    show ?thesis unfolding ChangeHtml step.simps
      using handler_effects(1)[OF c, where v = v]
      by (intro in_step_after_handler[OF i]) (simp_all add: Let_def)
  next
    case (ChangeCss v)
    show ?thesis unfolding ChangeCss step.simps
      using handler_effects(2)[OF c, where v = v]
      by (intro in_step_after_handler[OF i]) (simp_all add: Let_def)
  next
    case (ChangeData v)
    show ?thesis unfolding ChangeData step.simps
      using handler_effects(3)[OF c, where v = v and L = L]
      by (intro in_step_after_handler[OF i]) (simp_all add: Let_def)
  next
    case (ChangeApiKey v)
    show ?thesis unfolding ChangeApiKey step.simps
      using handler_effects(4)[OF c, where v = v]
      by (intro in_step_after_handler[OF i]) (simp_all add: Let_def)
  next
    case (ClickPublish post)
    show ?thesis
    proof (cases "loading s")
      case True
      then show ?thesis using i ClickPublish by simp
    next
      case False
      have "in_step L (after_render (snd (Button_onClick (publish L post) s)))"
        using handler_effects(5)[OF c, where L = L and post = post]
        by (intro in_step_after_handler[OF i]) (simp_all add: Let_def)
      then show ?thesis using False ClickPublish by simp
    qed
  next
    case (Elapse dt)
    show ?thesis unfolding Elapse step.simps
      using in_step_write[OF i, of dt] in_step_view[OF view_elapse_write, of L L dt s]
      by simp
  qed
qed

lemma in_step_run: "in_step L s \<Longrightarrow> in_step L (run L es s)"
  by (induction es arbitrary: s) (simp_all add: in_step_step)

lemma after_render_pending:
  "pending (writeTimer s) = Some (f, l, a) \<Longrightarrow>
   \<exists>l' a'. pending (writeTimer (after_render s)) = Some (f, l', a')"
  by (cases a) (simp add: after_render_def schedule_def Let_def)

lemma after_render_now: "now (after_render s) = now s"
  by (simp add: after_render_def Let_def)

lemma elapse_fields:
  "writeTimer (elapse L dt s) = writeTimer (writeTimer_fires L (now s + dt) s)"
  "localStorage (elapse L dt s) = localStorage (writeTimer_fires L (now s + dt) s)"
  "now (elapse L dt s) = now s + dt"
  using view_elapse_write[of L dt s] by (simp_all add: persisted_view_def)

lemma elapse_early:
  "pending (writeTimer s) = Some (f, l, a) \<Longrightarrow> deadline (writeTimer s) = Some due \<Longrightarrow>
   now s + dt < due \<Longrightarrow> writeTimer (elapse L dt s) = writeTimer s"
  by (simp add: elapse_fields writeTimer_fires_def expire_def)

lemma elapse_due:
  "pending (writeTimer s) = Some (f, l, a) \<Longrightarrow> deadline (writeTimer s) = Some due \<Longrightarrow>
   due \<le> now s + dt \<Longrightarrow> localStorage (elapse L dt s) = save L a (localStorage s)"
  by (simp add: elapse_fields writeTimer_fires_def expire_def del: save.simps)

lemma in_step_deadline:
  "in_step L s \<Longrightarrow> pending (writeTimer s) = Some (f, l, a) \<Longrightarrow>
   deadline (writeTimer s) = Some (min (l + 1000) (f + 5000))
   \<and> now s < min (l + 1000) (f + 5000) \<and> a = (html s, css s, params s)"
  by (simp add: in_step_def deadline_def)

lemma keystroke_keeps_burst:
  assumes i: "in_step L s" and p: "pending (writeTimer s) = Some (f, l, a)"
    and e: "\<forall>dt. e \<noteq> Elapse dt"
  shows "\<exists>l' a'. pending (writeTimer (step L e s)) = Some (f, l', a') \<and> now (step L e s) = now s"
proof -
  have c: "changed s = []" using i by (simp add: in_step_def)
  have k: "\<And>s'. now s' = now s \<Longrightarrow> writeTimer s' = writeTimer s \<Longrightarrow>
      \<exists>l' a'. pending (writeTimer (after_render s')) = Some (f, l', a')
        \<and> now (after_render s') = now s"
    using after_render_pending[of _ f l a] p by (simp add: after_render_now)
  show ?thesis
  proof (cases e)
    case (ChangeHtml v)
    show ?thesis unfolding ChangeHtml step.simps
      using handler_effects(1)[OF c, where v = v] by (intro k) (simp_all add: Let_def)
  next
    case (ChangeCss v)
    show ?thesis unfolding ChangeCss step.simps
      using handler_effects(2)[OF c, where v = v] by (intro k) (simp_all add: Let_def)
  next
    case (ChangeData v)
    show ?thesis unfolding ChangeData step.simps
      using handler_effects(3)[OF c, where v = v and L = L] by (intro k) (simp_all add: Let_def)
  next
    case (ChangeApiKey v)
    show ?thesis unfolding ChangeApiKey step.simps
      using handler_effects(4)[OF c, where v = v] by (intro k) (simp_all add: Let_def)
  next
    case (ClickPublish post)
    show ?thesis
    proof (cases "loading s")
      case True
      then show ?thesis using p ClickPublish by (cases a) simp
    next
      case False
      have "\<exists>l' a'. pending (writeTimer (after_render (snd (Button_onClick (publish L post) s))))
            = Some (f, l', a')
          \<and> now (after_render (snd (Button_onClick (publish L post) s))) = now s"
        using handler_effects(5)[OF c, where L = L and post = post]
        by (intro k) (simp_all add: Let_def)
      then show ?thesis using False ClickPublish by simp
    qed
  next
    case (Elapse dt)
    then show ?thesis using e by simp
  qed
qed

text \<open>
  A burst is pending, started at \<open>f\<close>, and the session goes on, with whatever events,
  until the clock has reached \<open>f + 5000\<close>. Then one of its steps is the passing of time in
  which the timer fires, no later than at \<open>f + 5000\<close>, and that step writes the documents
  as they are at that moment to the store.
\<close>

lemma session_write:
  "in_step L s \<Longrightarrow> pending (writeTimer s) = Some (f, l, a) \<Longrightarrow> f + 5000 \<le> now (run L es s) \<Longrightarrow>
   \<exists>es1 dt es2 due. es = es1 @ Elapse dt # es2
     \<and> deadline (writeTimer (run L es1 s)) = Some due
     \<and> now (run L es1 s) < due \<and> due \<le> now (run L es1 s) + dt \<and> due \<le> f + 5000
     \<and> localStorage (run L (es1 @ [Elapse dt]) s)
         = save L (html (run L es1 s), css (run L es1 s), params (run L es1 s))
             (localStorage (run L es1 s))"
proof (induction es arbitrary: s l a)
  case Nil
  then show ?case using in_step_deadline[of L s f l a] by simp
next
  case (Cons e es)
  note d = in_step_deadline[OF Cons.prems(1,2)]
  let ?due = "min (l + 1000) (f + 5000)"
  have next_step: "\<And>l' a'. pending (writeTimer (step L e s)) = Some (f, l', a') \<Longrightarrow> ?case"
  proof -
    fix l' a' assume p': "pending (writeTimer (step L e s)) = Some (f, l', a')"
    have "\<exists>es1 dt es2 due. es = es1 @ Elapse dt # es2
       \<and> deadline (writeTimer (run L es1 (step L e s))) = Some due
       \<and> now (run L es1 (step L e s)) < due \<and> due \<le> now (run L es1 (step L e s)) + dt
       \<and> due \<le> f + 5000
       \<and> localStorage (run L (es1 @ [Elapse dt]) (step L e s))
           = save L (html (run L es1 (step L e s)), css (run L es1 (step L e s)),
                     params (run L es1 (step L e s)))
               (localStorage (run L es1 (step L e s)))"
      using Cons.IH[OF in_step_step[OF Cons.prems(1)] p'] Cons.prems(3) by simp
    then obtain es1 dt es2 due where r: "es = es1 @ Elapse dt # es2"
       "deadline (writeTimer (run L es1 (step L e s))) = Some due"
       "now (run L es1 (step L e s)) < due" "due \<le> now (run L es1 (step L e s)) + dt"
       "due \<le> f + 5000"
       "localStorage (run L (es1 @ [Elapse dt]) (step L e s))
           = save L (html (run L es1 (step L e s)), css (run L es1 (step L e s)),
                     params (run L es1 (step L e s)))
               (localStorage (run L es1 (step L e s)))"
      by blast
    show ?case
      apply (rule exI[of _ "e # es1"], rule exI[of _ dt], rule exI[of _ es2], rule exI[of _ due])
      using r by (simp del: save.simps)
  qed
  show ?case
  proof (cases "\<exists>dt. e = Elapse dt")
    case False
    then obtain l' a' where "pending (writeTimer (step L e s)) = Some (f, l', a')"
      using keystroke_keeps_burst[OF Cons.prems(1,2), of e] by blast
    then show ?thesis by (rule next_step)
  next
    case True
    then obtain dt where e: "e = Elapse dt" by blast
    show ?thesis
    proof (cases "?due \<le> now s + dt")
      case True
      have w: "localStorage (elapse L dt s) = save L a (localStorage s)"
        using elapse_due[OF Cons.prems(2) _ True] d by simp
      show ?thesis
        apply (rule exI[of _ "[]"], rule exI[of _ dt], rule exI[of _ es], rule exI[of _ ?due])
        using w d True e by (simp del: save.simps)
    next
      case False
      then have "now s + dt < ?due" by linarith
      then have "writeTimer (elapse L dt s) = writeTimer s"
        using elapse_early[OF Cons.prems(2), of ?due dt L] d by blast
      then have "pending (writeTimer (step L e s)) = Some (f, l, a)"
        using Cons.prems(2) e by simp
      then show ?thesis by (rule next_step)
    qed
  qed
qed

lemma keystroke_calls:
  assumes i: "in_step L s" and h: "html s \<noteq> JString v"
  shows "\<exists>f. pending (writeTimer (step L (ChangeHtml v) s)) = Some (f, now s, (JString v, css s, params s))
          \<and> f = (case pending (writeTimer s) of None \<Rightarrow> now s | Some (f0, l0, a0) \<Rightarrow> f0)"
  using assms
  by (auto simp: in_step_def onChangeHtml_def setHtml_def js_defs after_render_def schedule_def
      Let_def split: option.splits)

text \<open>
  Claim C4. The persistence debounce, idle, is called again and again, each call less
  than 1000 ms after the one before, for more than 5000 ms. Then the first run of the
  wrapped function is exactly 5000 ms after the first call, with the arguments of the
  last call made before that moment. The ceiling is kept by every further call: as long
  as a burst is pending, the timer is due no later than the ceiling after the burst's
  first call. For calls at any times, in order, every call is followed by a run of the
  function within 5000 ms.

  In a session of the editor this reaches the store. At every moment of every session
  the persistence debounce is in step with the documents: either nothing is pending and
  the store holds the three documents as they are, or a burst is pending with the
  documents as its arguments, and its first call is less than 5000 ms ago. A keystroke
  that changes the markup calls the debounce with the documents as they are after it,
  and leaves the first call of a pending burst as it was. And when a burst is pending
  and the session goes on, with whatever events, until 5000 ms after the burst's first
  call, then one of its steps is the passing of time in which the timer fires, no later
  than 5000 ms after the first call, and that step writes the three documents as they
  are at that moment to the store.
\<close>

theorem maxWait_forces_save:
  "(cs \<noteq> [] \<and> gaps_below 1000 (map fst cs) \<and> fst (hd cs) + 5000 < fst (last cs) \<longrightarrow>
     (\<exists>rest. run_calls debouncedWriteStorage cs =
        (fst (hd cs) + 5000, snd (last (takeWhile (\<lambda>c. fst c < fst (hd cs) + 5000) cs))) # rest))
   \<and> (pending d = Some (f, l, a) \<and> maxWait d = Some m \<longrightarrow>
     (\<exists>due. deadline (schedule t x d) = Some due \<and> due \<le> f + m))
   \<and> (sorted (map fst cs) \<and> (u, y) \<in> set cs \<longrightarrow>
     (\<exists>u' y'. (u', y') \<in> set (run_calls debouncedWriteStorage cs) \<and> u < u' \<and> u' \<le> u + 5000))
   \<and> in_step L (run L es0 (mount L store t0))
   \<and> (in_step L s \<and> html s \<noteq> JString v \<longrightarrow>
     (\<exists>f'. pending (writeTimer (step L (ChangeHtml v) s))
              = Some (f', now s, (JString v, css s, params s))
          \<and> f' = (case pending (writeTimer s) of None \<Rightarrow> now s | Some (f0, l0, a0) \<Rightarrow> f0)))
   \<and> (in_step L s \<and> pending (writeTimer s) = Some (b, l', a') \<and> b + 5000 \<le> now (run L es s) \<longrightarrow>
     (\<exists>es1 dt es2 due. es = es1 @ Elapse dt # es2
        \<and> deadline (writeTimer (run L es1 s)) = Some due
        \<and> now (run L es1 s) < due \<and> due \<le> now (run L es1 s) + dt \<and> due \<le> b + 5000
        \<and> localStorage (run L (es1 @ [Elapse dt]) s)
            = save L (html (run L es1 s), css (run L es1 s), params (run L es1 s))
                (localStorage (run L es1 s))))"
proof (intro conjI impI)
  assume "cs \<noteq> [] \<and> gaps_below 1000 (map fst cs) \<and> fst (hd cs) + 5000 < fst (last cs)"
  then have ne: "cs \<noteq> []" and g: "gaps_below 1000 (map fst cs)"
    and w: "fst (hd cs) + 5000 < fst (last cs)" by simp_all
  obtain t x rest where cs: "cs = (t, x) # rest" using ne by (cases cs) auto
  let ?d = "schedule t x debouncedWriteStorage"
  have "\<exists>r. run_calls ?d rest =
     (t + 5000, snd (last (takeWhile (\<lambda>c. fst c < t + 5000) ((t, x) # rest)))) # r"
    apply (rule run_calls_ceiling[OF first_call(2) first_call(3)])
    using g w cs first_call(4)[of t x] by simp_all
  then show "\<exists>rest. run_calls debouncedWriteStorage cs =
        (fst (hd cs) + 5000, snd (last (takeWhile (\<lambda>c. fst c < fst (hd cs) + 5000) cs))) # rest"
    using first_call(1)[of t] cs by simp
next
  assume "pending d = Some (f, l, a) \<and> maxWait d = Some m"
  then show "\<exists>due. deadline (schedule t x d) = Some due \<and> due \<le> f + m"
    using ceiling_kept[of d f l a m t x] by simp
next
  assume "sorted (map fst cs) \<and> (u, y) \<in> set cs"
  then have so: "sorted (map fst cs)" and m: "(u, y) \<in> set cs" by simp_all
  show "\<exists>u' y'. (u', y') \<in> set (run_calls debouncedWriteStorage cs) \<and> u < u' \<and> u' \<le> u + 5000"
    by (rule run_calls_covers[OF _ _ _ so _ m]) (simp_all add: debouncedWriteStorage_def)
next
  show "in_step L (run L es0 (mount L store t0))"
    by (rule in_step_run[OF in_step_mount])
next
  assume "in_step L s \<and> html s \<noteq> JString v"
  then show "\<exists>f'. pending (writeTimer (step L (ChangeHtml v) s))
              = Some (f', now s, (JString v, css s, params s))
          \<and> f' = (case pending (writeTimer s) of None \<Rightarrow> now s | Some (f0, l0, a0) \<Rightarrow> f0)"
    using keystroke_calls[of L s v] by blast
next
  assume "in_step L s \<and> pending (writeTimer s) = Some (b, l', a') \<and> b + 5000 \<le> now (run L es s)"
  then show "\<exists>es1 dt es2 due. es = es1 @ Elapse dt # es2
        \<and> deadline (writeTimer (run L es1 s)) = Some due
        \<and> now (run L es1 s) < due \<and> due \<le> now (run L es1 s) + dt \<and> due \<le> b + 5000
        \<and> localStorage (run L (es1 @ [Elapse dt]) s)
            = save L (html (run L es1 s), css (run L es1 s), params (run L es1 s))
                (localStorage (run L es1 s))"
    using session_write[of L s b l' a' es] by blast
qed

lemma typing_session_end:
  "now (run example_libs typing_session example_state) = 5400"
  "localStorage (run example_libs typing_session example_state) ''html'' = Some ''abcdef''"
  "html (run example_libs typing_session example_state) = JString ''abcdefg''"
  by (simp_all add: typing_session_def example_state_eq onChangeHtml_def setHtml_def js_defs
      after_render_def schedule_def elapse_def writeTimer_fires_def htmlTimer_fires_def
      paramsTimer_fires_def expire_def deadline_def Preview_effect_def setCompiledHtml_def
      example_libs_def example_handlebars_def writeStorage_def serialise_def
      example_stringify_plain_def Let_def)

theorem maxWait_forces_save_witness:
  "long_burst \<noteq> [] \<and> gaps_below 1000 (map fst long_burst)
   \<and> fst (hd long_burst) + 5000 < fst (last long_burst)
   \<and> (\<exists>rest. run_calls debouncedWriteStorage long_burst
         = (5000, JString ''abcdef'', JString [], JObject []) # rest)
   \<and> pending (schedule 0 (JNull, JNull, JNull) debouncedWriteStorage) = Some (0, 0, JNull, JNull, JNull)
   \<and> (\<exists>due. deadline (schedule 4900 (JNull, JNull, JBool True)
                         (schedule 0 (JNull, JNull, JNull) debouncedWriteStorage)) = Some due
           \<and> due \<le> 5000)
   \<and> sorted (map fst long_burst)
   \<and> (5400, JString ''abcdefg'', JString [], JObject []) \<in> set long_burst
   \<and> (\<exists>u' y'. (u', y') \<in> set (run_calls debouncedWriteStorage long_burst)
         \<and> 5400 < u' \<and> u' \<le> 10400)
   \<and> in_step example_libs example_state
   \<and> html example_state \<noteq> JString ''a''
   \<and> pending (writeTimer (step example_libs (ChangeHtml ''a'') example_state))
       = Some (0, 0, JString ''a'', JString ''h1 { color: red }'',
               JObject [(''title'', JString ''Hello, World!'')])
   \<and> pending (writeTimer example_state)
       = Some (0, 0, JString ''<h1>Hello</h1>'', JString ''h1 { color: red }'',
               JObject [(''title'', JString ''Hello, World!'')])
   \<and> 0 + 5000 \<le> now (run example_libs typing_session example_state)
   \<and> (\<exists>es1 dt es2 due. typing_session = es1 @ Elapse dt # es2
        \<and> deadline (writeTimer (run example_libs es1 example_state)) = Some due
        \<and> now (run example_libs es1 example_state) < due
        \<and> due \<le> now (run example_libs es1 example_state) + dt \<and> due \<le> 0 + 5000
        \<and> localStorage (run example_libs (es1 @ [Elapse dt]) example_state)
            = save example_libs (html (run example_libs es1 example_state),
                                 css (run example_libs es1 example_state),
                                 params (run example_libs es1 example_state))
                (localStorage (run example_libs es1 example_state)))
   \<and> localStorage (run example_libs typing_session example_state) ''html'' = Some ''abcdef''"
proof -
  have pre: "long_burst \<noteq> [] \<and> gaps_below 1000 (map fst long_burst)
       \<and> fst (hd long_burst) + 5000 < fst (last long_burst)"
    by (simp add: long_burst_def)
  have a: "snd (last (takeWhile (\<lambda>c. fst c < 5000) long_burst))
      = (JString ''abcdef'', JString [], JObject [])"
    by (simp add: long_burst_def)
  have h: "fst (hd long_burst) = 0" by (simp add: long_burst_def)
  have p: "pending (schedule 0 (JNull, JNull, JNull) debouncedWriteStorage) = Some (0, 0, JNull, JNull, JNull)
      \<and> maxWait (schedule 0 (JNull, JNull, JNull) debouncedWriteStorage) = Some 5000"
    by (simp add: schedule_def debouncedWriteStorage_def)
  have q: "sorted (map fst long_burst)
      \<and> (5400, JString ''abcdefg'', JString [], JObject []) \<in> set long_burst"
    by (simp add: long_burst_def)
  have m: "mount example_libs Map.empty 0 = example_state"
    by (simp add: example_state_def)
  have e: "html example_state \<noteq> JString ''a''"
    "pending (writeTimer example_state)
       = Some (0, 0, JString ''<h1>Hello</h1>'', JString ''h1 { color: red }'',
               JObject [(''title'', JString ''Hello, World!'')])"
    "now example_state = 0" "css example_state = JString ''h1 { color: red }''"
    "params example_state = JObject [(''title'', JString ''Hello, World!'')]"
    by (simp_all add: example_state_eq)
  note t = maxWait_forces_save[where cs = long_burst
        and d = "schedule 0 (JNull, JNull, JNull) debouncedWriteStorage"
        and f = 0 and l = 0 and a = "(JNull, JNull, JNull)" and m = 5000 and t = 4900
        and x = "(JNull, JNull, JBool True)" and u = 5400
        and y = "(JString ''abcdefg'', JString [], JObject [])"
        and L = example_libs and ?es0.0 = "[]" and store = Map.empty and ?t0.0 = 0
        and s = example_state and v = "''a''" and b = 0 and l' = 0
        and a' = "(JString ''<h1>Hello</h1>'', JString ''h1 { color: red }'',
               JObject [(''title'', JString ''Hello, World!'')])"
        and es = typing_session]
  have i: "in_step example_libs example_state" using t m by simp
  show ?thesis
    using t pre p q i e typing_session_end
    by (simp add: a h del: run.simps step.simps save.simps)
qed

end
